theory Spec2Isabelle
  imports Main
begin

section \<open>Bytes and the seekable store\<close>

text \<open>
  A Python \<open>bytes\<close> value is a list of 8-bit characters. A Python \<open>str\<close> is represented
  by its UTF-8 encoding, which is the form \<open>CPIOInfo\<close> keeps it in (\<open>_name\<close>): \<open>encode\<close>
  and \<open>decode\<close> are inverse to each other between strings and well-formed UTF-8.
\<close>

type_synonym bytes = "char list"

definition NUL :: char where
  "NUL = CHR 0x00"

text \<open>
  The file-like object \<open>fp\<close>: an in-memory seekable store with the behaviour of
  \<open>io.BytesIO\<close> (a read returns the bytes asked for unless the end is reached, a
  negative count reads to the end, a negative seek raises).
\<close>

record filelike =
  content :: bytes
  pos :: nat

datatype bad_cpio =
    Truncated
  | BadMagic
  | NonHexInteger
  | ZeroLengthFilename
  | NonNulTerminated

datatype value_error =
    UnknownMode
  | ReadOnly
  | WriterStillOpen
  | TwoWriters
  | LengthMismatch int int
  | NegativeSeek

datatype error =
    BadCPIOFile bad_cpio
  | ValueError value_error
  | UnicodeDecodeError

definition fp_tell :: "filelike \<Rightarrow> int" where
  "fp_tell f = int (pos f)"

definition fp_seek :: "filelike \<Rightarrow> int \<Rightarrow> error + filelike" where
  "fp_seek f p = (if p < 0 then Inl (ValueError NegativeSeek) else Inr (f\<lparr>pos := nat p\<rparr>))"

definition fp_seek_end :: "filelike \<Rightarrow> filelike" where
  "fp_seek_end f = f\<lparr>pos := length (content f)\<rparr>"

definition fp_read :: "filelike \<Rightarrow> int \<Rightarrow> bytes \<times> filelike" where
  "fp_read f n =
     (let avail = drop (pos f) (content f);
          ret = (if n < 0 then avail else take (nat n) avail)
      in (ret, f\<lparr>pos := pos f + length ret\<rparr>))"

definition fp_write :: "filelike \<Rightarrow> bytes \<Rightarrow> filelike" where
  "fp_write f b =
     (if b = [] then f
      else let c = content f @ replicate (pos f - length (content f)) NUL
           in f\<lparr>content := take (pos f) c @ b @ drop (pos f + length b) c,
                pos := pos f + length b\<rparr>)"

section \<open>Python's \<open>int(b, 16)\<close>, \<open>f"{x:08x}"\<close>, \<open>struct\<close> and \<open>bytes.decode\<close>\<close>

definition Py_ISSPACE :: "char \<Rightarrow> bool" where
  "Py_ISSPACE c \<longleftrightarrow> (let n = of_char c :: nat in (9 \<le> n \<and> n \<le> 13) \<or> n = 32)"

text \<open>The digit table of the interpreter: 37 stands for "not a digit".\<close>

definition digit_value :: "char \<Rightarrow> nat" where
  "digit_value c =
     (let n = of_char c :: nat in
      if 48 \<le> n \<and> n \<le> 57 then n - 48
      else if 97 \<le> n \<and> n \<le> 122 then n - 87
      else if 65 \<le> n \<and> n \<le> 90 then n - 55
      else 37)"

text \<open>
  The digit loop: digits below the base and single underscores between them; two
  underscores in a row or a trailing underscore are a syntax error. The first argument
  is the previous character. The result is the digit values read and the rest of the
  input.
\<close>

fun scan_digits :: "char \<Rightarrow> bytes \<Rightarrow> (nat list \<times> bytes) option" where
  "scan_digits prev [] = (if prev = CHR ''_'' then None else Some ([], []))"
| "scan_digits prev (c # cs) =
     (if c = CHR ''_'' then (if prev = CHR ''_'' then None else scan_digits c cs)
      else if digit_value c < 16 then
        (case scan_digits c cs of None \<Rightarrow> None | Some (ds, r) \<Rightarrow> Some (digit_value c # ds, r))
      else if prev = CHR ''_'' then None
      else Some ([], c # cs))"

definition digits_value :: "nat list \<Rightarrow> nat" where
  "digits_value ds = foldl (\<lambda>a d. 16 * a + d) 0 ds"

definition strip_sign :: "bytes \<Rightarrow> int \<times> bytes" where
  "strip_sign s =
     (case s of
        [] \<Rightarrow> (1, s)
      | c # r \<Rightarrow> if c = CHR ''+'' then (1, r) else if c = CHR ''-'' then (- 1, r) else (1, s))"

definition strip_prefix16 :: "bytes \<Rightarrow> bytes" where
  "strip_prefix16 s =
     (case s of
        a # b # r \<Rightarrow>
          if a = CHR ''0'' \<and> (b = CHR ''x'' \<or> b = CHR ''X'')
          then (case r of [] \<Rightarrow> r | u # r' \<Rightarrow> if u = CHR ''_'' then r' else r)
          else s
      | _ \<Rightarrow> s)"

definition long_from_string16 :: "bytes \<Rightarrow> int option" where
  "long_from_string16 s =
     (let (sign, s2) = strip_sign (dropWhile Py_ISSPACE s);
          s3 = strip_prefix16 s2
      in if s3 \<noteq> [] \<and> hd s3 = CHR ''_'' then None
         else case scan_digits NUL s3 of
                None \<Rightarrow> None
              | Some (ds, rest) \<Rightarrow>
                  if ds = [] then None
                  else if dropWhile Py_ISSPACE rest \<noteq> [] then None
                  else Some (sign * int (digits_value ds)))"

text \<open>
  \<open>int(b, 16)\<close> on a bytes object: \<open>None\<close> is \<open>ValueError\<close>. The literal is read as
  a C string, so a NUL byte anywhere ends it before the end of the object and is refused.
\<close>

definition py_int16 :: "bytes \<Rightarrow> int option" where
  "py_int16 s = (if NUL \<in> set s then None else long_from_string16 s)"

definition hex_digit :: "nat \<Rightarrow> char" where
  "hex_digit d = ''0123456789abcdef'' ! d"

function to_hex :: "nat \<Rightarrow> bytes" where
  "to_hex n = (if n < 16 then [hex_digit n] else to_hex (n div 16) @ [hex_digit (n mod 16)])"
  by pat_completeness auto
termination
  by (relation "measure id") auto

declare to_hex.simps [simp del]

text \<open>\<open>f"{x:08x}"\<close>: sign, then lower-case hex digits zero-filled to a width of at least 8.\<close>

definition format_08x :: "int \<Rightarrow> bytes" where
  "format_08x x =
     (if x < 0
      then (let h = to_hex (nat (- x)) in CHR ''-'' # replicate (7 - length h) (CHR ''0'') @ h)
      else (let h = to_hex (nat x) in replicate (8 - length h) (CHR ''0'') @ h))"

text \<open>The \<open>struct\<close> format \<open>ns\<close>: cut to \<open>n\<close> bytes or filled with NUL bytes.\<close>

definition pack_s :: "nat \<Rightarrow> bytes \<Rightarrow> bytes" where
  "pack_s n b = take n b @ replicate (n - length b) NUL"

definition ENTRY_HEADER_size :: nat where
  "ENTRY_HEADER_size = 6 + 13 * 8"

definition ENTRY_HEADER_pack :: "bytes \<Rightarrow> bytes list \<Rightarrow> bytes" where
  "ENTRY_HEADER_pack magic values = pack_s 6 magic @ concat (map (pack_s 8) values)"

definition ENTRY_HEADER_unpack :: "bytes \<Rightarrow> bytes \<times> bytes list" where
  "ENTRY_HEADER_unpack header =
     (take 6 header, map (\<lambda>k. take 8 (drop (6 + 8 * k) header)) [0..<13])"

text \<open>
  Strict UTF-8: the length of the well-formed sequence at the head of the input, 0 when
  there is none (overlong forms, surrogates and code points above U+10FFFF are refused).
\<close>

definition in_range :: "nat \<Rightarrow> nat \<Rightarrow> char \<Rightarrow> bool" where
  "in_range lo hi c \<longleftrightarrow> lo \<le> (of_char c :: nat) \<and> (of_char c :: nat) \<le> hi"

fun utf8_seq_len :: "bytes \<Rightarrow> nat" where
  "utf8_seq_len [] = 0"
| "utf8_seq_len (a # r) =
     (let n = of_char a :: nat in
      if n < 0x80 then 1
      else if 0xC2 \<le> n \<and> n \<le> 0xDF then
        (case r of b # _ \<Rightarrow> if in_range 0x80 0xBF b then 2 else 0 | _ \<Rightarrow> 0)
      else if 0xE0 \<le> n \<and> n \<le> 0xEF then
        (case r of
           b # c # _ \<Rightarrow>
             if in_range (if n = 0xE0 then 0xA0 else 0x80) (if n = 0xED then 0x9F else 0xBF) b
                \<and> in_range 0x80 0xBF c
             then 3 else 0
         | _ \<Rightarrow> 0)
      else if 0xF0 \<le> n \<and> n \<le> 0xF4 then
        (case r of
           b # c # d # _ \<Rightarrow>
             if in_range (if n = 0xF0 then 0x90 else 0x80) (if n = 0xF4 then 0x8F else 0xBF) b
                \<and> in_range 0x80 0xBF c \<and> in_range 0x80 0xBF d
             then 4 else 0
         | _ \<Rightarrow> 0)
      else 0)"

function utf8_valid :: "bytes \<Rightarrow> bool" where
  "utf8_valid s =
     (if s = [] then True
      else if utf8_seq_len s = 0 then False
      else utf8_valid (drop (utf8_seq_len s) s))"
  by pat_completeness auto
termination
  by (relation "measure length") auto

declare utf8_valid.simps [simp del]

text \<open>
  \<open>b.decode()\<close> followed by the \<open>encode()\<close> of the constructor: the same bytes when
  they are well-formed UTF-8, \<open>UnicodeDecodeError\<close> otherwise.
\<close>

definition py_decode :: "bytes \<Rightarrow> error + bytes" where
  "py_decode b = (if utf8_valid b then Inr b else Inl UnicodeDecodeError)"

section \<open>CPIOInfo\<close>

record CPIOInfo =
  offset :: int
  ino :: int
  mode :: int
  uid :: int
  gid :: int
  nlink :: int
  mtime :: int
  filesize :: int
  devmajor :: int
  devminor :: int
  rdevmajor :: int
  rdevminor :: int
  name :: bytes

definition from_file :: "filelike \<Rightarrow> (error + CPIOInfo) \<times> filelike" where
  "from_file fp =
     (let offs = fp_tell fp;
          (header, fp1) = fp_read fp (int ENTRY_HEADER_size)
      in if length header \<noteq> ENTRY_HEADER_size then (Inl (BadCPIOFile Truncated), fp1)
         else let (magic, fields) = ENTRY_HEADER_unpack header
              in if magic \<noteq> ''070701'' then (Inl (BadCPIOFile BadMagic), fp1)
                 else let vs = map py_int16 (take 12 fields)
                      in if None \<in> set vs then (Inl (BadCPIOFile NonHexInteger), fp1)
                         else let v = (\<lambda>k. the (vs ! k)); namesize = v 11
                              in if namesize = 0 then (Inl (BadCPIOFile ZeroLengthFilename), fp1)
                                 else let (nm, fp2) = fp_read fp1 namesize
                                      in if int (length nm) \<noteq> namesize then (Inl (BadCPIOFile Truncated), fp2)
                                         else if last nm \<noteq> NUL then (Inl (BadCPIOFile NonNulTerminated), fp2)
                                         else case py_decode (butlast nm) of
                                                Inl e \<Rightarrow> (Inl e, fp2)
                                              | Inr n \<Rightarrow>
                                                  (Inr \<lparr>offset = offs, ino = v 0, mode = v 1, uid = v 2,
                                                        gid = v 3, nlink = v 4, mtime = v 5, filesize = v 6,
                                                        devmajor = v 7, devminor = v 8, rdevmajor = v 9,
                                                        rdevminor = v 10, name = n\<rparr>, fp2))"

definition offset_data :: "CPIOInfo \<Rightarrow> int" where
  "offset_data i = offset i + (int ENTRY_HEADER_size + int (length (name i)) + 1 + 3) div 4 * 4"

definition offset_after :: "CPIOInfo \<Rightarrow> int" where
  "offset_after i = offset_data i + (filesize i + 3) div 4 * 4"

definition encode :: "CPIOInfo \<Rightarrow> bytes" where
  "encode i =
     (let values = [ino i, mode i, uid i, gid i, nlink i, mtime i, filesize i, devmajor i,
                    devminor i, rdevmajor i, rdevminor i, int (length (name i)) + 1, 0];
          ret = ENTRY_HEADER_pack ''070701'' (map format_08x values) @ name i @ [NUL]
      in ret @ replicate ((4 - length ret mod 4) mod 4) NUL)"

section \<open>Member streams\<close>

record ReadableMember =
  r_start :: int
  r_length :: int
  r_pos :: int

definition ReadableMember_init :: "CPIOInfo \<Rightarrow> ReadableMember" where
  "ReadableMember_init info = \<lparr>r_start = offset_data info, r_length = filesize info, r_pos = 0\<rparr>"

text \<open>\<open>_read(n, fn)\<close>, with the store's \<open>read\<close> for \<open>fn\<close>; the shared store is passed along.\<close>

definition ReadableMember_read ::
    "ReadableMember \<Rightarrow> filelike \<Rightarrow> int \<Rightarrow> (error + bytes) \<times> ReadableMember \<times> filelike" where
  "ReadableMember_read self f n =
     (let n' = (if n < 0 \<or> n > r_length self - r_pos self then r_length self - r_pos self else n)
      in case fp_seek f (r_start self + r_pos self) of
           Inl e \<Rightarrow> (Inl e, self, f)
         | Inr f1 \<Rightarrow>
             (let (ret, f2) = fp_read f1 n'
              in (Inr ret, self\<lparr>r_pos := r_pos self + int (length ret)\<rparr>, f2)))"

record CPIOFile =
  fp :: filelike
  writeable :: bool
  writer_active :: bool

definition CPIOFile_init :: "filelike \<Rightarrow> string \<Rightarrow> error + CPIOFile" where
  "CPIOFile_init f md =
     (if md \<noteq> ''r'' \<and> md \<noteq> ''w'' then Inl (ValueError UnknownMode)
      else Inr \<lparr>fp = f, writeable = (md = ''w''), writer_active = False\<rparr>)"

record WriteableMember =
  expected_length :: int
  actual_length :: int
  closed :: bool

text \<open>
  The write stream refers to its archive; the archive is passed to each operation and
  returned as the operation leaves it, also when the operation raises.
\<close>

definition WriteableMember_init ::
    "CPIOFile \<Rightarrow> CPIOInfo \<Rightarrow> (error + WriteableMember) \<times> CPIOFile" where
  "WriteableMember_init archive info =
     (if writer_active archive then (Inl (ValueError TwoWriters), archive)
      else (Inr \<lparr>expected_length = filesize info, actual_length = 0, closed = False\<rparr>,
            archive\<lparr>writer_active := True,
                    fp := fp_write (fp_seek_end (fp archive)) (encode info)\<rparr>))"

definition WriteableMember_write ::
    "WriteableMember \<Rightarrow> CPIOFile \<Rightarrow> bytes \<Rightarrow> WriteableMember \<times> CPIOFile" where
  "WriteableMember_write self archive data =
     (self\<lparr>actual_length := actual_length self + int (length data)\<rparr>,
      archive\<lparr>fp := fp_write (fp_seek_end (fp archive)) data\<rparr>)"

definition WriteableMember_close ::
    "WriteableMember \<Rightarrow> CPIOFile \<Rightarrow> (error + unit) \<times> WriteableMember \<times> CPIOFile" where
  "WriteableMember_close self archive =
     (if closed self then (Inr (), self, archive)
      else if actual_length self \<noteq> expected_length self
      then (Inl (ValueError (LengthMismatch (actual_length self) (expected_length self))),
            self, archive)
      else (let padding = replicate (nat ((4 - actual_length self mod 4) mod 4)) NUL
            in (Inr (), self\<lparr>closed := True\<rparr>,
                archive\<lparr>fp := fp_write (fp_seek_end (fp archive)) padding,
                        writer_active := False\<rparr>)))"

section \<open>CPIOFile\<close>

datatype member = Reader ReadableMember | Writer WriteableMember

definition CPIOFile_open ::
    "CPIOFile \<Rightarrow> CPIOInfo \<Rightarrow> string \<Rightarrow> (error + member) \<times> CPIOFile" where
  "CPIOFile_open self info md =
     (if md = ''r'' then (Inr (Reader (ReadableMember_init info)), self)
      else if md = ''w'' then
        (if writeable self then
           (case WriteableMember_init self info of
              (Inl e, a) \<Rightarrow> (Inl e, a)
            | (Inr w, a) \<Rightarrow> (Inr (Writer w), a))
         else (Inl (ValueError ReadOnly), self))
      else (Inl (ValueError UnknownMode), self))"

definition trailer_info :: CPIOInfo where
  "trailer_info =
     \<lparr>offset = 0, ino = 0, mode = 493, uid = 0, gid = 0, nlink = 1, mtime = 0, filesize = 0,
      devmajor = 0, devminor = 0, rdevmajor = 0, rdevminor = 0, name = ''TRAILER!!!''\<rparr>"

text \<open>
  \<open>close\<close>: the \<open>with\<close> statement opens the trailer's write stream and closes it at
  once (the stream's \<open>__exit__\<close> calls its \<open>close\<close>).
\<close>

definition CPIOFile_close :: "CPIOFile \<Rightarrow> (error + unit) \<times> CPIOFile" where
  "CPIOFile_close self =
     (if writeable self then
        (if writer_active self then (Inl (ValueError WriterStillOpen), self)
         else (case CPIOFile_open self trailer_info ''w'' of
                 (Inl e, a) \<Rightarrow> (Inl e, a)
               | (Inr (Writer w), a) \<Rightarrow>
                   (case WriteableMember_close w a of (r, w', a') \<Rightarrow> (r, a'))
               | (Inr (Reader r), a) \<Rightarrow> (Inr (), a)))
      else (Inr (), self))"

text \<open>
  \<open>infolist\<close> is a generator. Its state between two calls of \<open>next\<close> is where it is
  suspended: before its first statement, at the \<open>yield\<close> (holding \<open>info\<close>), or finished.
  A call of \<open>next\<close> returns the descriptor yielded, \<open>None\<close> when the generator returns
  (\<open>StopIteration\<close>), or the exception raised.
\<close>

datatype generator = Unstarted | Suspended CPIOInfo | Exhausted

definition infolist_body ::
    "CPIOFile \<Rightarrow> (error + CPIOInfo option) \<times> generator \<times> CPIOFile" where
  "infolist_body self =
     (case from_file (fp self) of
        (Inl e, f) \<Rightarrow> (Inl e, Exhausted, self\<lparr>fp := f\<rparr>)
      | (Inr info, f) \<Rightarrow>
          if name info = ''TRAILER!!!'' then (Inr None, Exhausted, self\<lparr>fp := f\<rparr>)
          else (Inr (Some info), Suspended info, self\<lparr>fp := f\<rparr>))"

definition infolist_next ::
    "generator \<Rightarrow> CPIOFile \<Rightarrow> (error + CPIOInfo option) \<times> generator \<times> CPIOFile" where
  "infolist_next g self =
     (case g of
        Unstarted \<Rightarrow>
          (case fp_seek (fp self) 0 of
             Inl e \<Rightarrow> (Inl e, Exhausted, self)
           | Inr f \<Rightarrow> infolist_body (self\<lparr>fp := f\<rparr>))
      | Suspended info \<Rightarrow>
          (case fp_seek (fp self) (offset_after info) of
             Inl e \<Rightarrow> (Inl e, Exhausted, self)
           | Inr f \<Rightarrow> infolist_body (self\<lparr>fp := f\<rparr>))
      | Exhausted \<Rightarrow> (Inr None, Exhausted, self))"

text \<open>
  Consuming the generator (\<open>list(archive.infolist())\<close>) with at most \<open>k\<close> calls of
  \<open>next\<close>: the descriptors yielded and how the iteration ended, \<open>None\<close> when it has not
  ended within \<open>k\<close> calls.
\<close>

fun infolist_run ::
    "nat \<Rightarrow> generator \<Rightarrow> CPIOFile \<Rightarrow> CPIOInfo list \<times> (error + unit) option \<times> CPIOFile" where
  "infolist_run 0 g self = ([], None, self)"
| "infolist_run (Suc k) g self =
     (case infolist_next g self of
        (Inl e, g', a) \<Rightarrow> ([], Some (Inl e), a)
      | (Inr None, g', a) \<Rightarrow> ([], Some (Inr ()), a)
      | (Inr (Some info), g', a) \<Rightarrow>
          (case infolist_run k g' a of (infos, r, a') \<Rightarrow> (info # infos, r, a')))"

text \<open>
  The objects of a session: the archive and the write streams created so far, each
  addressed by its index. Constructing a write stream stores the new object and returns
  its address.
\<close>

record world =
  archive :: CPIOFile
  writers :: "WriteableMember list"

definition new_writer :: "world \<Rightarrow> CPIOInfo \<Rightarrow> (error + nat) \<times> world" where
  "new_writer w info =
     (case WriteableMember_init (archive w) info of
        (Inl e, a) \<Rightarrow> (Inl e, w\<lparr>archive := a\<rparr>)
      | (Inr m, a) \<Rightarrow> (Inr (length (writers w)), \<lparr>archive = a, writers = writers w @ [m]\<rparr>))"

section \<open>Notions used in the statements\<close>

text \<open>\<open>align4 x\<close> is \<open>x\<close> rounded up to the next multiple of 4.\<close>

definition align4 :: "int \<Rightarrow> int" where
  "align4 x = x + (- x) mod 4"

text \<open>The header block at the store's position, and the \<open>k\<close>-th 8-byte field of a block.\<close>

definition header_at :: "filelike \<Rightarrow> bytes" where
  "header_at f = take ENTRY_HEADER_size (drop (pos f) (content f))"

definition field :: "bytes \<Rightarrow> nat \<Rightarrow> bytes" where
  "field h k = take 8 (drop (6 + 8 * k) h)"

text \<open>A hexadecimal digit, and the characters that can occur in a literal \<open>int(b, 16)\<close> accepts.\<close>

definition is_hex :: "char \<Rightarrow> bool" where
  "is_hex c \<longleftrightarrow> digit_value c < 16"

definition hex_value :: "bytes \<Rightarrow> int" where
  "hex_value s = int (digits_value (map digit_value s))"

definition int16_char :: "char \<Rightarrow> bool" where
  "int16_char c \<longleftrightarrow>
     is_hex c \<or> Py_ISSPACE c \<or> c = CHR ''+'' \<or> c = CHR ''-'' \<or> c = CHR ''_''
       \<or> c = CHR ''x'' \<or> c = CHR ''X''"

text \<open>
  The descriptors of the data model: every numeric field, and the name size that goes on
  the wire, is an unsigned 32-bit value, and the name is the encoding of a string.
\<close>

definition u32 :: "int \<Rightarrow> bool" where
  "u32 x \<longleftrightarrow> 0 \<le> x \<and> x < 2 ^ 32"

definition in_data_model :: "CPIOInfo \<Rightarrow> bool" where
  "in_data_model d \<longleftrightarrow>
     u32 (ino d) \<and> u32 (mode d) \<and> u32 (uid d) \<and> u32 (gid d) \<and> u32 (nlink d) \<and> u32 (mtime d)
     \<and> u32 (filesize d) \<and> u32 (devmajor d) \<and> u32 (devminor d) \<and> u32 (rdevmajor d)
     \<and> u32 (rdevminor d) \<and> u32 (int (length (name d)) + 1) \<and> utf8_valid (name d)"

text \<open>
  The bytes a member occupies in the store (its encoded header and name, its data, the
  padding \<open>close\<close> writes), a store made of members, and the descriptors of such a store
  with the header offsets at which its members lie.
\<close>

definition member_bytes :: "CPIOInfo \<Rightarrow> bytes \<Rightarrow> bytes" where
  "member_bytes d data =
     encode d @ data @ replicate (nat ((4 - int (length data) mod 4) mod 4)) NUL"

definition valid_member :: "CPIOInfo \<times> bytes \<Rightarrow> bool" where
  "valid_member m \<longleftrightarrow>
     in_data_model (fst m) \<and> name (fst m) \<noteq> ''TRAILER!!!''
     \<and> int (length (snd m)) = filesize (fst m)"

definition archive_bytes :: "(CPIOInfo \<times> bytes) list \<Rightarrow> bytes" where
  "archive_bytes ms = concat (map (\<lambda>m. member_bytes (fst m) (snd m)) ms)"

fun placed :: "nat \<Rightarrow> (CPIOInfo \<times> bytes) list \<Rightarrow> CPIOInfo list" where
  "placed p [] = []"
| "placed p (m # ms) =
     (fst m)\<lparr>offset := int p\<rparr> # placed (p + length (member_bytes (fst m) (snd m))) ms"

text \<open>An example member and the archive that holds it, followed by the trailer.\<close>

definition hello_info :: CPIOInfo where
  "hello_info =
     \<lparr>offset = 0, ino = 1, mode = 33188, uid = 1000, gid = 1000, nlink = 1, mtime = 0,
      filesize = 5, devmajor = 0, devminor = 0, rdevmajor = 0, rdevminor = 0,
      name = ''hello.txt''\<rparr>"

definition hello_store :: bytes where
  "hello_store = encode hello_info @ ''world'' @ replicate 3 NUL @ encode trailer_info"

definition hello_archive :: CPIOFile where
  "hello_archive = \<lparr>fp = \<lparr>content = hello_store, pos = 0\<rparr>, writeable = False, writer_active = False\<rparr>"

text \<open>
  Hand-written entries: one whose name size is 0; one whose name size is 1, the name block
  being the terminator alone; one whose name block holds a NUL before the terminator; the
  trailer entry with a check field that is not hexadecimal; the trailer entry with leading
  spaces in its first field and a sign in its second; a store that holds no entry; a header
  whose first field ends in \<open>g\<close>; and an entry whose size field is the signed literal
  \<open>-0000070\<close>.
\<close>

definition zero_namesize_entry :: bytes where
  "zero_namesize_entry =
     ''070701'' @ concat (replicate 11 ''00000000'') @ ''00000000'' @ ''00000000''"

definition empty_name_entry :: bytes where
  "empty_name_entry =
     ''070701'' @ concat (replicate 11 ''00000000'') @ ''00000001'' @ ''00000000''
       @ [NUL, NUL]"

definition nul_name_entry :: bytes where
  "nul_name_entry =
     ''070701'' @ concat (replicate 11 ''00000000'') @ ''00000004'' @ ''00000000''
       @ [CHR ''a'', NUL, CHR ''b'', NUL, NUL, NUL]"

definition bad_check_entry :: bytes where
  "bad_check_entry =
     ''07070100000000000001ed0000000000000000000000010000000000000000000000000000000000000000000000000000000bzzzzzzzzTRAILER!!!''
       @ replicate 4 NUL"

definition lenient_entry :: bytes where
  "lenient_entry =
     ''070701      1f+00001ed0000000000000000000000010000000000000000000000000000000000000000000000000000000b00000000TRAILER!!!''
       @ replicate 4 NUL"

definition junk_store :: bytes where
  "junk_store = replicate 110 (CHR ''x'')"

definition non_hex_entry :: bytes where
  "non_hex_entry = ''070701'' @ ''0000000g'' @ concat (replicate 12 ''00000000'')"

definition negative_size_entry :: bytes where
  "negative_size_entry =
     ''070701'' @ concat (replicate 6 ''00000000'') @ ''-0000070''
       @ concat (replicate 4 ''00000000'') @ ''00000002'' @ ''00000000'' @ [CHR ''a'', NUL]"

definition negative_size_info :: CPIOInfo where
  "negative_size_info =
     \<lparr>offset = 0, ino = 0, mode = 0, uid = 0, gid = 0, nlink = 0, mtime = 0,
      filesize = - 112, devmajor = 0, devminor = 0, rdevmajor = 0, rdevminor = 0,
      name = ''a''\<rparr>"

definition blank_info :: "bytes \<Rightarrow> CPIOInfo" where
  "blank_info n =
     \<lparr>offset = 0, ino = 0, mode = 0, uid = 0, gid = 0, nlink = 0, mtime = 0,
      filesize = 0, devmajor = 0, devminor = 0, rdevmajor = 0, rdevminor = 0, name = n\<rparr>"

section \<open>Helper facts\<close>

lemma fp_append:
  "fp_write (fp_seek_end f) b = \<lparr>content = content f @ b, pos = length (content f) + length b\<rparr>"
  by (cases f) (simp add: fp_write_def fp_seek_end_def Let_def)

lemma pad4_int: "((x::int) + (4 - x mod 4) mod 4) mod 4 = 0"
  by presburger

lemma from_file_offset: "from_file f = (Inr d, f') \<Longrightarrow> offset d = int (pos f)"
  by (auto simp: from_file_def fp_tell_def Let_def split: prod.splits if_splits sum.splits)

lemma infolist_body_Some:
  "infolist_body a = (Inr (Some d), g, a') \<Longrightarrow>
     g = Suspended d \<and> name d \<noteq> ''TRAILER!!!'' \<and> offset d = int (pos (fp a))"
  by (auto simp: infolist_body_def from_file_offset split: prod.splits sum.splits if_splits)

lemma infolist_next_Some:
  "infolist_next g a = (Inr (Some d), g', a') \<Longrightarrow>
     g' = Suspended d \<and> name d \<noteq> ''TRAILER!!!''
     \<and> (case g of Unstarted \<Rightarrow> offset d = 0 | Suspended i \<Rightarrow> offset d = offset_after i | Exhausted \<Rightarrow> False)"
  by (auto simp: infolist_next_def fp_seek_def split: generator.splits sum.splits if_splits dest!: infolist_body_Some)

lemma infolist_run_names:
  "d \<in> set (fst (infolist_run k g a)) \<Longrightarrow> name d \<noteq> ''TRAILER!!!''"
proof (induction k arbitrary: g a)
  case 0
  then show ?case by simp
next
  case (Suc k)
  then show ?case
    by (auto split: prod.splits sum.splits option.splits dest: infolist_next_Some)
       (metis fst_conv)
qed

lemma infolist_next_None:
  "infolist_next g a = (Inr None, g', a') \<Longrightarrow> g' = Exhausted"
  by (auto simp: infolist_next_def infolist_body_def split: generator.splits sum.splits if_splits prod.splits)

lemma infolist_run_Exhausted: "fst (infolist_run k Exhausted a) = []"
  by (cases k) (simp_all add: infolist_next_def)

lemma offset_after_dvd: "4 dvd offset i \<Longrightarrow> 4 dvd offset_after i"
  by (simp add: offset_after_def offset_data_def)

lemma infolist_run_aligned:
  "d \<in> set (fst (infolist_run k g a)) \<Longrightarrow> (\<forall>i. g = Suspended i \<longrightarrow> 4 dvd offset i) \<Longrightarrow> 4 dvd offset d"
proof (induction k arbitrary: g a)
  case 0
  then show ?case by simp
next
  case (Suc k)
  show ?case
  proof (cases "infolist_next g a")
    case (fields r g' a')
    show ?thesis
    proof (cases r)
      case (Inl e)
      with fields Suc.prems show ?thesis by simp
    next
      case (Inr o1)
      show ?thesis
      proof (cases o1)
        case None
        with Inr fields Suc.prems show ?thesis by simp
      next
        case (Some i)
        from infolist_next_Some [of g a i g' a'] fields Inr Some
        have g': "g' = Suspended i" and
          off: "(case g of Unstarted \<Rightarrow> offset i = 0 | Suspended j \<Rightarrow> offset i = offset_after j | Exhausted \<Rightarrow> False)"
          by simp_all
        have ali: "4 dvd offset i"
          using off Suc.prems(2) by (cases g) (simp_all add: offset_after_dvd)
        from Suc.prems(1) fields Inr Some
        have "d = i \<or> d \<in> set (fst (infolist_run k g' a'))"
          by (auto split: prod.splits)
        then show ?thesis
        proof
          assume "d = i" with ali show ?thesis by simp
        next
          assume "d \<in> set (fst (infolist_run k g' a'))"
          then show ?thesis using Suc.IH [of g' a'] g' ali by simp
        qed
      qed
    qed
  qed
qed


lemma align4_least: "4 dvd align4 x \<and> x \<le> align4 x \<and> align4 x < x + 4"
  unfolding align4_def by presburger

lemma align4_shift: "4 dvd a \<Longrightarrow> a + (b + 3) div 4 * 4 = align4 (a + b)"
  unfolding align4_def by presburger

lemma is_hex_not:
  "is_hex c \<Longrightarrow> \<not> Py_ISSPACE c \<and> c \<noteq> CHR ''+'' \<and> c \<noteq> CHR ''-'' \<and> c \<noteq> CHR ''_''
      \<and> c \<noteq> CHR ''x'' \<and> c \<noteq> CHR ''X'' \<and> c \<noteq> NUL"
  by (auto simp: is_hex_def digit_value_def Py_ISSPACE_def NUL_def Let_def split: if_splits)

lemma digit_value_hex_digit: "d < 16 \<Longrightarrow> digit_value (hex_digit d) = d"
proof -
  have "\<forall>d \<in> set [0..<16]. digit_value (hex_digit d) = d"
    by code_simp
  then show "d < 16 \<Longrightarrow> digit_value (hex_digit d) = d"
    by simp
qed

lemma is_hex_hex_digit: "d < 16 \<Longrightarrow> is_hex (hex_digit d)"
  by (simp add: is_hex_def digit_value_hex_digit)

lemma digits_value_snoc: "digits_value (ds @ [d]) = 16 * digits_value ds + d"
  by (simp add: digits_value_def)

lemma digits_value_zeros: "digits_value (replicate k 0 @ ds) = digits_value ds"
  by (induction k) (simp_all add: digits_value_def)

lemma to_hex_value: "digits_value (map digit_value (to_hex n)) = n"
proof (induction n rule: to_hex.induct)
  case (1 n)
  show ?case
  proof (cases "n < 16")
    case True
    then show ?thesis
      by (subst to_hex.simps) (simp add: digit_value_hex_digit digits_value_def)
  next
    case False
    with 1 show ?thesis
      by (subst to_hex.simps) (simp add: digit_value_hex_digit digits_value_snoc)
  qed
qed

lemma to_hex_is_hex: "c \<in> set (to_hex n) \<Longrightarrow> is_hex c"
proof (induction n rule: to_hex.induct)
  case (1 n)
  show ?case
  proof (cases "n < 16")
    case True
    with 1(2) show ?thesis
      by (subst (asm) to_hex.simps) (simp add: is_hex_hex_digit)
  next
    case False
    with 1 show ?thesis
      by (subst (asm) (2) to_hex.simps) (auto simp: is_hex_hex_digit)
  qed
qed

lemma to_hex_length: "n < 16 ^ k \<Longrightarrow> 0 < k \<Longrightarrow> length (to_hex n) \<le> k"
proof (induction n arbitrary: k rule: to_hex.induct)
  case (1 n)
  show ?case
  proof (cases "n < 16")
    case True
    with 1(3) show ?thesis
      by (subst to_hex.simps) simp
  next
    case False
    obtain j where k: "k = Suc j" using 1(3) by (cases k) auto
    from False 1(2) k have j0: "0 < j" by (cases j) auto
    from 1(2) k have "n div 16 < 16 ^ j"
      by (simp add: less_mult_imp_div_less mult.commute)
    with 1(1) [OF False _ j0] have "length (to_hex (n div 16)) \<le> j" by simp
    with False k show ?thesis
      by (subst to_hex.simps) simp
  qed
qed


lemma scan_digits_hex:
  "\<forall>c \<in> set s. is_hex c \<Longrightarrow> s \<noteq> [] \<or> prev \<noteq> CHR ''_'' \<Longrightarrow>
     scan_digits prev s = Some (map digit_value s, [])"
proof (induction s arbitrary: prev)
  case Nil
  then show ?case by simp
next
  case (Cons c cs)
  from Cons.prems(1) have h: "is_hex c" by simp
  then have u: "c \<noteq> CHR ''_''" using is_hex_not by blast
  have "scan_digits c cs = Some (map digit_value cs, [])"
    using Cons.IH [of c] Cons.prems(1) u by simp
  with h u show ?case by (simp add: is_hex_def)
qed

lemma py_int16_hex:
  assumes "\<forall>c \<in> set s. is_hex c" and "s \<noteq> []"
  shows "py_int16 s = Some (int (digits_value (map digit_value s)))"
proof -
  obtain a r where s: "s = a # r" using assms(2) by (cases s) auto
  have ha: "is_hex a" using assms(1) s by simp
  have nn: "NUL \<notin> set s" using assms(1) is_hex_not by blast
  have dw: "dropWhile Py_ISSPACE s = s" using ha is_hex_not s by simp
  have ss: "strip_sign s = (1, s)" using ha is_hex_not s by (simp add: strip_sign_def)
  have sp: "strip_prefix16 s = s"
  proof (cases r)
    case Nil
    with s show ?thesis by (simp add: strip_prefix16_def)
  next
    case (Cons b r')
    then have "is_hex b" using assms(1) s by simp
    then have "b \<noteq> CHR ''x'' \<and> b \<noteq> CHR ''X''" using is_hex_not by blast
    with s Cons show ?thesis by (simp add: strip_prefix16_def)
  qed
  have hd: "hd s \<noteq> CHR ''_''" using ha is_hex_not s by simp
  have sc: "scan_digits NUL s = Some (map digit_value s, [])"
    using scan_digits_hex [OF assms(1), of NUL] assms(2) by simp
  show ?thesis
    using nn dw ss sp hd sc assms(2)
    by (simp add: py_int16_def long_from_string16_def)
qed

lemma digit_value_zero: "digit_value (CHR ''0'') = 0" "is_hex (CHR ''0'')"
  by (simp_all add: digit_value_def is_hex_def)

lemma format_08x_props:
  assumes "0 \<le> x" and "x < 2 ^ 32"
  shows "length (format_08x x) = 8" and "py_int16 (format_08x x) = Some x"
proof -
  let ?h = "to_hex (nat x)"
  have "nat x < 16 ^ 8" using assms by simp
  then have len: "length ?h \<le> 8" by (rule to_hex_length) simp
  have f: "format_08x x = replicate (8 - length ?h) (CHR ''0'') @ ?h"
    using assms(1) by (simp add: format_08x_def Let_def)
  show l8: "length (format_08x x) = 8" using len by (simp add: f)
  have hexes: "\<forall>c \<in> set (format_08x x). is_hex c"
    by (auto simp: f digit_value_zero dest: to_hex_is_hex)
  have ne: "format_08x x \<noteq> []" using l8 by auto
  have "digits_value (map digit_value (format_08x x)) = nat x"
    by (simp add: f digit_value_zero digits_value_zeros to_hex_value)
  with py_int16_hex [OF hexes ne] assms(1) show "py_int16 (format_08x x) = Some x"
    by simp
qed

lemma pack_s_id: "length b = n \<Longrightarrow> pack_s n b = b"
  by (simp add: pack_s_def)

lemma fields_of_concat:
  "\<forall>f \<in> set fs. length f = 8 \<Longrightarrow> k < length fs \<Longrightarrow>
     take 8 (drop (8 * k) (concat fs @ rest)) = fs ! k"
proof (induction fs arbitrary: k)
  case Nil
  then show ?case by simp
next
  case (Cons f fs)
  show ?case
  proof (cases k)
    case 0
    with Cons.prems show ?thesis by simp
  next
    case (Suc j)
    with Cons.prems have "take 8 (drop (8 * j) (concat fs @ rest)) = fs ! j"
      using Cons.IH [of j] by simp
    moreover have "drop (8 * k) (concat (f # fs) @ rest) = drop (8 * j) (concat fs @ rest)"
      using Cons.prems(1) Suc by simp
    ultimately show ?thesis using Suc by simp
  qed
qed

lemma unpack_pack:
  assumes "length m = 6" and "length fs = 13" and "\<forall>f \<in> set fs. length f = 8"
  shows "ENTRY_HEADER_unpack (m @ concat fs) = (m, fs)"
proof -
  have "map (\<lambda>k. take 8 (drop (6 + 8 * k) (m @ concat fs))) [0..<13] = fs"
  proof (rule nth_equalityI)
    show "length (map (\<lambda>k. take 8 (drop (6 + 8 * k) (m @ concat fs))) [0..<13]) = length fs"
      using assms(2) by simp
  next
    fix i assume "i < length (map (\<lambda>k. take 8 (drop (6 + 8 * k) (m @ concat fs))) [0..<13])"
    then have i: "i < 13" by simp
    have "take 8 (drop (6 + 8 * i) (m @ concat fs)) = take 8 (drop (8 * i) (concat fs @ []))"
      using assms(1) by simp
    also have "\<dots> = fs ! i"
      using fields_of_concat [OF assms(3), of i "[]"] i assms(2) by simp
    finally show "map (\<lambda>k. take 8 (drop (6 + 8 * k) (m @ concat fs))) [0..<13] ! i = fs ! i"
      using i by simp
  qed
  then show ?thesis using assms(1) by (simp add: ENTRY_HEADER_unpack_def)
qed


lemma fp_read_at:
  "n = int (length b) \<Longrightarrow>
   fp_read \<lparr>content = c @ b @ rest, pos = length c\<rparr> n
     = (b, \<lparr>content = c @ b @ rest, pos = length c + length b\<rparr>)"
  by (simp add: fp_read_def Let_def)

lemma from_file_encode:
  assumes "in_data_model d"
  shows "from_file \<lparr>content = c @ encode d @ rest, pos = length c\<rparr>
         = (Inr (d\<lparr>offset := int (length c)\<rparr>),
            \<lparr>content = c @ encode d @ rest, pos = length c + 110 + (length (name d) + 1)\<rparr>)"
proof -
  define vs where "vs = [ino d, mode d, uid d, gid d, nlink d, mtime d, filesize d, devmajor d,
                    devminor d, rdevmajor d, rdevminor d, int (length (name d)) + 1, 0]"
  define fs where "fs = map format_08x vs"
  define hdr where "hdr = ''070701'' @ concat fs"
  define tl where "tl = replicate ((4 - length (hdr @ name d @ [NUL]) mod 4) mod 4) NUL @ rest"
  have rng: "\<forall>v \<in> set vs. 0 \<le> v \<and> v < 2 ^ 32"
    using assms by (simp add: vs_def in_data_model_def u32_def)
  have l8: "\<forall>f \<in> set fs. length f = 8"
    using rng by (auto simp: fs_def format_08x_props)
  have lfs: "length fs = 13" by (simp add: fs_def vs_def)
  have pk: "map (pack_s 8) fs = fs"
    using l8 by (simp add: map_idI pack_s_id)
  have enc: "encode d = hdr @ name d @ [NUL] @ replicate ((4 - length (hdr @ name d @ [NUL]) mod 4) mod 4) NUL"
    unfolding encode_def Let_def ENTRY_HEADER_pack_def vs_def [symmetric] fs_def [symmetric] pk
    hdr_def by (simp add: pack_s_def)
  have lc: "length (concat fs) = 104"
    using l8 lfs by (simp add: length_concat fs_def vs_def format_08x_props) 
  have lh: "length hdr = 110" by (simp add: hdr_def lc)
  have cont: "c @ encode d @ rest = c @ hdr @ (name d @ [NUL]) @ tl"
    by (simp add: enc tl_def)
  have un: "ENTRY_HEADER_unpack hdr = (''070701'', fs)"
    unfolding hdr_def by (rule unpack_pack) (simp_all add: lfs l8)
  have ints: "map py_int16 (take 12 fs) = map Some (take 12 vs)"
    using rng by (simp add: fs_def vs_def format_08x_props)
  have nn: "None \<notin> py_int16 ` set (take 12 fs)"
  proof -
    have "None \<notin> set (map py_int16 (take 12 fs))" unfolding ints by auto
    then show ?thesis by simp
  qed
  have r1: "fp_read \<lparr>content = c @ hdr @ (name d @ [NUL]) @ tl, pos = length c\<rparr> 110
        = (hdr, \<lparr>content = c @ hdr @ (name d @ [NUL]) @ tl, pos = length c + 110\<rparr>)"
    using fp_read_at [of "int ENTRY_HEADER_size" hdr c "(name d @ [NUL]) @ tl"] lh
    by (simp add: ENTRY_HEADER_size_def)
  have r2: "fp_read \<lparr>content = c @ hdr @ (name d @ [NUL]) @ tl, pos = length c + 110\<rparr> (int (length (name d)) + 1)
        = (name d @ [NUL], \<lparr>content = c @ hdr @ (name d @ [NUL]) @ tl, pos = length c + 110 + (length (name d) + 1)\<rparr>)"
    using fp_read_at [of "int (length (name d)) + 1" "name d @ [NUL]" "c @ hdr" tl] lh by simp
  have r2': "fp_read \<lparr>content = c @ hdr @ (name d @ [NUL]) @ tl, pos = length c + 110\<rparr> (1 + int (length (name d)))
        = (name d @ [NUL], \<lparr>content = c @ hdr @ (name d @ [NUL]) @ tl, pos = length c + 110 + (length (name d) + 1)\<rparr>)"
    using r2 by (simp add: add.commute)
  have dec: "py_decode (name d) = Inr (name d)"
    using assms by (simp add: py_decode_def in_data_model_def)
  have rec: "\<lparr>offset = int (length c), ino = ino d, mode = mode d, uid = uid d, gid = gid d, nlink = nlink d,
        mtime = mtime d, filesize = filesize d, devmajor = devmajor d, devminor = devminor d,
        rdevmajor = rdevmajor d, rdevminor = rdevminor d, name = name d\<rparr> = d\<lparr>offset := int (length c)\<rparr>"
    by (cases d) simp
  show ?thesis
    unfolding cont from_file_def
    by (simp add: r1 un ints lh ENTRY_HEADER_size_def fp_tell_def vs_def r2 r2' dec rec Let_def nn
        del: append_assoc)
qed


lemma pad4_up: "(x::int) + (4 - x mod 4) mod 4 = (x + 3) div 4 * 4"
  by presburger

lemma pad4_nat_int: "int ((4 - L mod 4) mod 4) = (4 - int L mod 4) mod 4"
proof -
  have "L mod 4 \<le> 4" by simp
  then have "int (4 - L mod 4) = 4 - int (L mod 4)" by (simp add: of_nat_diff)
  then show ?thesis by (simp add: zmod_int)
qed

lemma length_pack_s: "length (pack_s n b) = n"
  by (simp add: pack_s_def)

lemma length_concat_pack: "length (concat (map (pack_s 8) fs)) = 8 * length fs"
  by (induction fs) (simp_all add: length_pack_s)

lemma encode_length:
  "int (length (encode d)) = (int ENTRY_HEADER_size + int (length (name d)) + 1 + 3) div 4 * 4"
proof -
  define L where "L = 111 + length (name d)"
  have "length (encode d) = L + (4 - L mod 4) mod 4"
    unfolding encode_def Let_def ENTRY_HEADER_pack_def L_def
    by (simp add: length_pack_s length_concat_pack)
  then have "int (length (encode d)) = int L + (4 - int L mod 4) mod 4"
    by (simp add: pad4_nat_int)
  also have "\<dots> = (int L + 3) div 4 * 4" by (rule pad4_up)
  also have "int L = int ENTRY_HEADER_size + int (length (name d)) + 1"
    by (simp add: L_def ENTRY_HEADER_size_def)
  finally show ?thesis .
qed

lemma offset_data_encode: "offset_data d = offset d + int (length (encode d))"
  by (simp add: offset_data_def encode_length)


lemma from_file_encode0:
  "in_data_model d \<Longrightarrow>
   from_file \<lparr>content = encode d @ rest, pos = 0\<rparr>
     = (Inr (d\<lparr>offset := 0\<rparr>),
        \<lparr>content = encode d @ rest, pos = 110 + (length (name d) + 1)\<rparr>)"
  using from_file_encode [of d "[]" rest] by simp

lemma utf8_trailer: "utf8_valid ''TRAILER!!!''"
  by code_simp

lemma utf8_hello: "utf8_valid ''hello.txt''"
  by code_simp

lemma in_data_model_trailer: "in_data_model trailer_info"
  by (simp add: in_data_model_def u32_def trailer_info_def utf8_trailer)

lemma in_data_model_hello: "in_data_model hello_info"
  by (simp add: in_data_model_def u32_def hello_info_def utf8_hello)

lemma open_write_fresh:
  "writeable a \<Longrightarrow> \<not> writer_active a \<Longrightarrow>
   CPIOFile_open a d ''w''
     = (Inr (Writer \<lparr>expected_length = filesize d, actual_length = 0, closed = False\<rparr>),
        a\<lparr>writer_active := True,
          fp := \<lparr>content = content (fp a) @ encode d,
                  pos = length (content (fp a)) + length (encode d)\<rparr>\<rparr>)"
  by (simp add: CPIOFile_open_def WriteableMember_init_def fp_append)

lemma write_chunks:
  "foldl (\<lambda>(w, a). WriteableMember_write w a) (w, a) chunks = (w', a') \<Longrightarrow>
     actual_length w' = actual_length w + int (length (concat chunks))
     \<and> expected_length w' = expected_length w \<and> closed w' = closed w
     \<and> content (fp a') = content (fp a) @ concat chunks
     \<and> writeable a' = writeable a \<and> writer_active a' = writer_active a"
proof (induction chunks arbitrary: w a)
  case Nil
  then show ?case by simp
next
  case (Cons x xs)
  obtain w1 a1 where s: "WriteableMember_write w a x = (w1, a1)" by (cases "WriteableMember_write w a x")
  with Cons.prems have "foldl (\<lambda>(w, a). WriteableMember_write w a) (w1, a1) xs = (w', a')" by simp
  from Cons.IH [OF this] s show ?case
    by (auto simp: WriteableMember_write_def fp_append)
qed

lemma read_member:
  assumes "content f = c @ data @ rest" and "r_start m = int (length c)"
    and "r_length m = int (length data)" and "r_pos m = 0"
  shows "ReadableMember_read m f (- 1)
         = (Inr data, m\<lparr>r_pos := int (length data)\<rparr>, f\<lparr>pos := length c + length data\<rparr>)"
  using assms by (simp add: ReadableMember_read_def fp_seek_def fp_read_def Let_def)

lemma read_member_end:
  assumes "r_pos m = r_length m" and "0 \<le> r_start m + r_pos m"
  shows "ReadableMember_read m f (- 1) = (Inr [], m, f\<lparr>pos := nat (r_start m + r_pos m)\<rparr>)"
  using assms by (simp add: ReadableMember_read_def fp_seek_def fp_read_def Let_def)

lemma length_encode_trailer: "length (encode trailer_info) = 124"
  using encode_length [of trailer_info] by (simp add: trailer_info_def ENTRY_HEADER_size_def)

lemma length_encode_hello: "length (encode hello_info) = 120"
  using encode_length [of hello_info] by (simp add: hello_info_def ENTRY_HEADER_size_def)

lemma offsets_hello: "offset_data hello_info = 120" "offset_after hello_info = 128"
  by (simp_all add: offset_after_def offset_data_def hello_info_def ENTRY_HEADER_size_def)

lemma hello_next1:
  "infolist_next Unstarted hello_archive
     = (Inr (Some hello_info), Suspended hello_info,
        hello_archive\<lparr>fp := \<lparr>content = hello_store, pos = 120\<rparr>\<rparr>)"
proof -
  have "from_file \<lparr>content = hello_store, pos = 0\<rparr>
          = (Inr hello_info, \<lparr>content = hello_store, pos = 120\<rparr>)"
    unfolding hello_store_def
    using from_file_encode0 [OF in_data_model_hello, of "''world'' @ replicate 3 NUL @ encode trailer_info"]
    by (simp add: hello_info_def)
  then show ?thesis
    by (simp add: infolist_next_def hello_archive_def fp_seek_def infolist_body_def)
       (simp add: hello_info_def)
qed

lemma hello_next2:
  "infolist_next (Suspended hello_info) (hello_archive\<lparr>fp := \<lparr>content = hello_store, pos = 120\<rparr>\<rparr>)
     = (Inr None, Exhausted, hello_archive\<lparr>fp := \<lparr>content = hello_store, pos = 249\<rparr>\<rparr>)"
proof -
  have "from_file \<lparr>content = (encode hello_info @ ''world'' @ replicate 3 NUL) @ encode trailer_info @ [],
                    pos = length (encode hello_info @ ''world'' @ replicate 3 NUL)\<rparr>
          = (Inr (trailer_info\<lparr>offset := int (length (encode hello_info @ ''world'' @ replicate 3 NUL))\<rparr>),
             \<lparr>content = (encode hello_info @ ''world'' @ replicate 3 NUL) @ encode trailer_info @ [],
              pos = length (encode hello_info @ ''world'' @ replicate 3 NUL) + 110 + (length (name trailer_info) + 1)\<rparr>)"
    by (rule from_file_encode [OF in_data_model_trailer])
  then have "from_file \<lparr>content = hello_store, pos = 128\<rparr>
          = (Inr (trailer_info\<lparr>offset := 128\<rparr>), \<lparr>content = hello_store, pos = 249\<rparr>)"
    by (simp add: hello_store_def length_encode_hello) (simp add: trailer_info_def)
  then show ?thesis
    by (simp add: infolist_next_def hello_archive_def fp_seek_def infolist_body_def offsets_hello)
       (simp add: trailer_info_def)
qed

lemma hello_run:
  "infolist_run 3 Unstarted hello_archive
     = ([hello_info], Some (Inr ()), hello_archive\<lparr>fp := \<lparr>content = hello_store, pos = 249\<rparr>\<rparr>)"
  by (simp add: numeral_3_eq_3 hello_next1 hello_next2)

lemma encode_trailer:
  "encode trailer_info =
     ''07070100000000000001ed0000000000000000000000010000000000000000000000000000000000000000000000000000000b00000000TRAILER!!!''
     @ replicate 4 NUL"
  by code_simp

lemma close_writeable:
  assumes "writeable a" and "\<not> writer_active a"
  shows "CPIOFile_close a
         = (Inr (), a\<lparr>fp := \<lparr>content = content (fp a) @ encode trailer_info,
                               pos = length (content (fp a)) + 124\<rparr>\<rparr>)"
proof -
  have "a\<lparr>writer_active := True,
          fp := \<lparr>content = content (fp a) @ encode trailer_info,
                  pos = length (content (fp a)) + 124\<rparr>,
          writer_active := False\<rparr>
        = a\<lparr>fp := \<lparr>content = content (fp a) @ encode trailer_info,
                               pos = length (content (fp a)) + 124\<rparr>\<rparr>"
    using assms(2) by (cases a) simp
  then show ?thesis
    using assms
    by (simp add: CPIOFile_close_def open_write_fresh WriteableMember_close_def fp_append
        length_encode_trailer)
       (simp add: trailer_info_def)
qed

lemma fields_12:
  "take 12 (map (\<lambda>k. take 8 (drop (6 + 8 * k) h)) [0..<13]) = map (field h) [0..<12]"
  by (simp add: take_map field_def)

lemma none_field:
  "None \<in> set (map py_int16 (map (field h) [0..<12])) \<longleftrightarrow> (\<exists>k < 12. py_int16 (field h k) = None)"
  by (auto simp: image_iff) (metis atLeastLessThan_iff zero_le)

lemma nth_field:
  "k < 12 \<Longrightarrow> map py_int16 (map (field h) [0..<12]) ! k = py_int16 (field h k)"
  by simp

lemma read_header:
  "fp_read f (int ENTRY_HEADER_size) = (header_at f, f\<lparr>pos := pos f + length (header_at f)\<rparr>)"
  by (simp add: fp_read_def header_at_def Let_def)

lemma from_file_alt:
  "from_file f =
     (let h = header_at f; f1 = f\<lparr>pos := pos f + length h\<rparr>
      in if length h \<noteq> 110 then (Inl (BadCPIOFile Truncated), f1)
         else if take 6 h \<noteq> ''070701'' then (Inl (BadCPIOFile BadMagic), f1)
         else if \<exists>k < 12. py_int16 (field h k) = None then (Inl (BadCPIOFile NonHexInteger), f1)
         else let v = (\<lambda>k. the (py_int16 (field h k))) in
              if v 11 = 0 then (Inl (BadCPIOFile ZeroLengthFilename), f1)
              else let (nm, f2) = fp_read f1 (v 11)
                   in if int (length nm) \<noteq> v 11 then (Inl (BadCPIOFile Truncated), f2)
                      else if last nm \<noteq> NUL then (Inl (BadCPIOFile NonNulTerminated), f2)
                      else if \<not> utf8_valid (butlast nm) then (Inl UnicodeDecodeError, f2)
                      else (Inr \<lparr>offset = int (pos f), ino = v 0, mode = v 1, uid = v 2,
                                 gid = v 3, nlink = v 4, mtime = v 5, filesize = v 6,
                                 devmajor = v 7, devminor = v 8, rdevmajor = v 9,
                                 rdevminor = v 10, name = butlast nm\<rparr>, f2))"
  unfolding from_file_def Let_def ENTRY_HEADER_unpack_def
  apply (simp only: read_header prod.case fields_12 none_field)
  apply (auto simp add: nth_field py_decode_def ENTRY_HEADER_size_def fp_tell_def
      split: prod.splits simp del: upt_Suc)
  apply (simp add: numeral_2_eq_2)
  done

lemma from_file_zero_namesize:
  "from_file \<lparr>content = zero_namesize_entry, pos = 0\<rparr>
     = (Inl (BadCPIOFile ZeroLengthFilename), \<lparr>content = zero_namesize_entry, pos = 110\<rparr>)"
  by code_simp

lemma from_file_empty_name:
  "from_file \<lparr>content = empty_name_entry, pos = 0\<rparr>
     = (Inr (blank_info []), \<lparr>content = empty_name_entry, pos = 111\<rparr>)"
  by code_simp

lemma from_file_nul_name:
  "from_file \<lparr>content = nul_name_entry, pos = 0\<rparr>
     = (Inr (blank_info [CHR ''a'', NUL, CHR ''b'']), \<lparr>content = nul_name_entry, pos = 114\<rparr>)"
  by code_simp

lemma from_file_bad_check:
  "from_file \<lparr>content = bad_check_entry, pos = 0\<rparr>
     = (Inr trailer_info, \<lparr>content = bad_check_entry, pos = 121\<rparr>)"
  by code_simp

lemma from_file_negative_size:
  "from_file \<lparr>content = negative_size_entry, pos = 0\<rparr>
     = (Inr negative_size_info, \<lparr>content = negative_size_entry, pos = 112\<rparr>)"
  by code_simp

lemma from_file_zero:
  assumes "py_int16 (field (header_at f) 11) = Some 0"
  shows "\<exists>b. fst (from_file f) = Inl (BadCPIOFile b)"
  using assms by (simp add: from_file_alt Let_def)

lemma from_file_name:
  assumes "from_file f = (Inr d, f')"
  shows "\<exists>ns. py_int16 (field (header_at f) 11) = Some ns \<and> 1 \<le> ns
            \<and> int (length (name d)) = ns - 1
            \<and> take (nat ns) (drop (pos f + 110) (content f)) = name d @ [NUL]"
proof -
  let ?h = "header_at f"
  define ns where "ns = the (py_int16 (field ?h 11))"
  define nm where "nm = fst (fp_read (f\<lparr>pos := pos f + length ?h\<rparr>) ns)"
  from assms have c: "length ?h = 110" "\<not> (\<exists>k < 12. py_int16 (field ?h k) = None)" "ns \<noteq> 0"
    and n: "int (length nm) = ns" "last nm = NUL" "name d = butlast nm"
    by (auto simp: from_file_alt Let_def ns_def nm_def split: if_splits prod.splits)
  from c(2) have "py_int16 (field ?h 11) \<noteq> None" by auto
  then have s: "py_int16 (field ?h 11) = Some ns"
    by (cases "py_int16 (field ?h 11)") (auto simp: ns_def)
  from n(1) c(3) have p: "1 \<le> ns" by linarith
  then have ne: "nm \<noteq> []" using n(1) by auto
  then have nm: "nm = name d @ [NUL]" using n(2,3) by (metis append_butlast_last_id)
  have "nm = take (nat ns) (drop (pos f + 110) (content f))"
    using p c(1) by (simp add: nm_def fp_read_def Let_def)
  with nm s p n(1) show ?thesis by (intro exI [of _ ns]) auto
qed

lemma field11_zero: "py_int16 (field (header_at \<lparr>content = zero_namesize_entry, pos = 0\<rparr>) 11) = Some 0"
  by code_simp

lemma from_file_hello:
  "from_file \<lparr>content = hello_store, pos = 0\<rparr> = (Inr hello_info, \<lparr>content = hello_store, pos = 120\<rparr>)"
  unfolding hello_store_def
  using from_file_encode0 [OF in_data_model_hello, of "''world'' @ replicate 3 NUL @ encode trailer_info"]
  by (simp add: hello_info_def)

lemma negative_next:
  "pos (fp a) = p \<Longrightarrow> content (fp a) = negative_size_entry \<Longrightarrow> g = Unstarted \<or> g = Suspended negative_size_info \<Longrightarrow>
   infolist_next g a
     = (Inr (Some negative_size_info), Suspended negative_size_info,
        a\<lparr>fp := \<lparr>content = negative_size_entry, pos = 112\<rparr>\<rparr>)"
proof -
  assume a: "pos (fp a) = p" "content (fp a) = negative_size_entry"
    and g: "g = Unstarted \<or> g = Suspended negative_size_info"
  have oa: "offset_after negative_size_info = 0"
    by (simp add: offset_after_def offset_data_def negative_size_info_def ENTRY_HEADER_size_def)
  have sk: "fp_seek (fp a) 0 = Inr \<lparr>content = negative_size_entry, pos = 0\<rparr>"
    using a by (cases "fp a") (simp add: fp_seek_def)
  have nm: "name negative_size_info \<noteq> ''TRAILER!!!''"
    by (simp add: negative_size_info_def)
  from g show ?thesis
    using nm by (auto simp: infolist_next_def oa sk infolist_body_def from_file_negative_size)
qed

lemma negative_run:
  "content (fp a) = negative_size_entry \<Longrightarrow> g = Unstarted \<or> g = Suspended negative_size_info \<Longrightarrow>
   fst (infolist_run k g a) = replicate k negative_size_info
   \<and> fst (snd (infolist_run k g a)) = None"
proof (induction k arbitrary: g a)
  case 0
  then show ?case by simp
next
  case (Suc k)
  have n: "infolist_next g a
     = (Inr (Some negative_size_info), Suspended negative_size_info,
        a\<lparr>fp := \<lparr>content = negative_size_entry, pos = 112\<rparr>\<rparr>)"
    using negative_next [OF refl Suc.prems] .
  have "fst (infolist_run k (Suspended negative_size_info) (a\<lparr>fp := \<lparr>content = negative_size_entry, pos = 112\<rparr>\<rparr>))
          = replicate k negative_size_info
        \<and> fst (snd (infolist_run k (Suspended negative_size_info) (a\<lparr>fp := \<lparr>content = negative_size_entry, pos = 112\<rparr>\<rparr>)))
          = None"
    by (rule Suc.IH) simp_all
  then show ?case
    by (cases "infolist_run k (Suspended negative_size_info)
                 (a\<lparr>fp := \<lparr>content = negative_size_entry, pos = 112\<rparr>\<rparr>)")
       (simp add: n)
qed

lemma scan_digits_split:
  "scan_digits p s = Some (ds, r) \<Longrightarrow>
     \<exists>pre. s = pre @ r \<and> (\<forall>c \<in> set pre. is_hex c \<or> c = CHR ''_'')"
proof (induction s arbitrary: p ds)
  case Nil
  then show ?case by (simp split: if_splits)
next
  case (Cons c cs)
  show ?case
  proof (cases "c = CHR ''_''")
    case True
    with Cons.prems have "scan_digits c cs = Some (ds, r)" by (simp split: if_splits)
    from Cons.IH [OF this] obtain pre where "cs = pre @ r" "\<forall>c \<in> set pre. is_hex c \<or> c = CHR ''_''"
      by blast
    with True have "c # cs = (c # pre) @ r \<and> (\<forall>x \<in> set (c # pre). is_hex x \<or> x = CHR ''_'')"
      by simp
    then show ?thesis by blast
  next
    case False
    show ?thesis
    proof (cases "digit_value c < 16")
      case True
      with False Cons.prems obtain ds' where "scan_digits c cs = Some (ds', r)"
        by (auto split: option.splits)
      from Cons.IH [OF this] obtain pre where "cs = pre @ r" "\<forall>c \<in> set pre. is_hex c \<or> c = CHR ''_''"
        by blast
      with True have "c # cs = (c # pre) @ r \<and> (\<forall>x \<in> set (c # pre). is_hex x \<or> x = CHR ''_'')"
        by (simp add: is_hex_def)
      then show ?thesis by blast
    next
      case F2: False
      with False Cons.prems have "r = c # cs" by (simp split: if_splits)
      then have "c # cs = [] @ r \<and> (\<forall>x \<in> set ([] :: bytes). is_hex x \<or> x = CHR ''_'')" by simp
      then show ?thesis by blast
    qed
  qed
qed

lemma strip_sign_chars:
  "strip_sign s = (sg, s2) \<Longrightarrow> c \<in> set s \<Longrightarrow> c \<in> set s2 \<or> c = CHR ''+'' \<or> c = CHR ''-''"
  by (auto simp: strip_sign_def split: list.splits if_splits)

lemma strip_prefix16_chars:
  "c \<in> set s \<Longrightarrow> c \<in> set (strip_prefix16 s) \<or> c = CHR ''0'' \<or> c = CHR ''x'' \<or> c = CHR ''X''
      \<or> c = CHR ''_''"
  by (auto simp: strip_prefix16_def split: list.splits if_splits)

lemma dropWhile_chars: "c \<in> set s \<Longrightarrow> c \<in> set (dropWhile P s) \<or> P c"
  by (metis Un_iff set_append set_takeWhileD takeWhile_dropWhile_id)

lemma py_int16_chars:
  assumes "py_int16 s = Some v" and "c \<in> set s"
  shows "int16_char c"
proof -
  from assms(1) have l: "long_from_string16 s = Some v"
    by (simp add: py_int16_def split: if_splits)
  obtain sg s2 where ss: "strip_sign (dropWhile Py_ISSPACE s) = (sg, s2)"
    by (cases "strip_sign (dropWhile Py_ISSPACE s)")
  from l ss obtain ds rest where sc: "scan_digits NUL (strip_prefix16 s2) = Some (ds, rest)"
    and rs: "\<forall>c \<in> set rest. Py_ISSPACE c"
    by (auto simp: long_from_string16_def Let_def split: if_splits option.splits)
  from scan_digits_split [OF sc] obtain pre where
    pre: "strip_prefix16 s2 = pre @ rest" "\<forall>c \<in> set pre. is_hex c \<or> c = CHR ''_''"
    by blast
  have s3: "x \<in> set (strip_prefix16 s2) \<Longrightarrow> int16_char x" for x
    using pre rs by (auto simp: int16_char_def)
  have s2: "x \<in> set s2 \<Longrightarrow> int16_char x" for x
    using strip_prefix16_chars [of x s2] s3 [of x] digit_value_zero(2)
    by (auto simp: int16_char_def)
  have s1: "x \<in> set (dropWhile Py_ISSPACE s) \<Longrightarrow> int16_char x" for x
    using strip_sign_chars [OF ss, of x] s2 [of x] by (auto simp: int16_char_def)
  show ?thesis
    using dropWhile_chars [OF assms(2), of Py_ISSPACE] s1 [of c] by (auto simp: int16_char_def)
qed

lemma length_field: "length h = 110 \<Longrightarrow> k < 13 \<Longrightarrow> length (field h k) = 8"
  by (simp add: field_def)

lemma py_int16_field_hex:
  assumes "length h = 110" and "k < 13" and "\<forall>c \<in> set (field h k). is_hex c"
  shows "py_int16 (field h k) = Some (hex_value (field h k))"
proof -
  have "field h k \<noteq> []" using length_field [OF assms(1,2)] by auto
  with py_int16_hex [OF assms(3)] show ?thesis by (simp add: hex_value_def)
qed

lemma upt11: "[0..<11] = [0, 1, 2, 3, 4, 5, 6, 7, 8, 9, 10]"
  by code_simp

lemma from_file_non_hex:
  assumes "length (header_at f) = 110" and "take 6 (header_at f) = ''070701''"
    and "k < 12" and "c \<in> set (field (header_at f) k)" and "\<not> int16_char c"
  shows "from_file f = (Inl (BadCPIOFile NonHexInteger), f\<lparr>pos := pos f + 110\<rparr>)"
proof -
  have "py_int16 (field (header_at f) k) = None"
  proof (cases "py_int16 (field (header_at f) k)")
    case None
    then show ?thesis .
  next
    case (Some v)
    from py_int16_chars [OF Some assms(4)] assms(5) show ?thesis by simp
  qed
  with assms(3) have "\<exists>k < 12. py_int16 (field (header_at f) k) = None" by blast
  with assms(1,2) show ?thesis by (simp add: from_file_alt Let_def)
qed

lemma from_file_all_hex:
  assumes "length (header_at f) = 110" and "take 6 (header_at f) = ''070701''"
    and "\<forall>k < 12. \<forall>c \<in> set (field (header_at f) k). is_hex c"
  shows "fst (from_file f) \<noteq> Inl (BadCPIOFile NonHexInteger)"
    and "from_file f = (Inr d, f') \<Longrightarrow>
           [ino d, mode d, uid d, gid d, nlink d, mtime d, filesize d, devmajor d, devminor d,
            rdevmajor d, rdevminor d]
             = map (\<lambda>k. hex_value (field (header_at f) k)) [0..<11]"
proof -
  let ?h = "header_at f"
  have v: "k < 12 \<Longrightarrow> py_int16 (field ?h k) = Some (hex_value (field ?h k))" for k
    using py_int16_field_hex [OF assms(1), of k] assms(3) by simp
  then have n: "\<not> (\<exists>k < 12. py_int16 (field ?h k) = None)" by auto
  show "fst (from_file f) \<noteq> Inl (BadCPIOFile NonHexInteger)"
    using assms(1,2) n by (simp add: from_file_alt Let_def split: prod.splits)
  assume "from_file f = (Inr d, f')"
  with assms(1,2) n show "[ino d, mode d, uid d, gid d, nlink d, mtime d, filesize d, devmajor d,
      devminor d, rdevmajor d, rdevminor d] = map (\<lambda>k. hex_value (field ?h k)) [0..<11]"
    by (auto simp add: from_file_alt Let_def v upt11 split: prod.splits if_splits)
qed

lemma non_hex_facts:
  "length (header_at \<lparr>content = non_hex_entry, pos = 0\<rparr>) = 110"
  "take 6 (header_at \<lparr>content = non_hex_entry, pos = 0\<rparr>) = ''070701''"
  "CHR ''g'' \<in> set (field (header_at \<lparr>content = non_hex_entry, pos = 0\<rparr>) 0)"
  "\<not> int16_char (CHR ''g'')"
  by code_simp+

lemma bad_check_facts:
  "length (header_at \<lparr>content = bad_check_entry, pos = 0\<rparr>) = 110"
  "take 6 (header_at \<lparr>content = bad_check_entry, pos = 0\<rparr>) = ''070701''"
  "field (header_at \<lparr>content = bad_check_entry, pos = 0\<rparr>) 12 = ''zzzzzzzz''"
  "\<not> is_hex (CHR ''z'')"
  "\<forall>k \<in> set [0..<12]. \<forall>c \<in> set (field (header_at \<lparr>content = bad_check_entry, pos = 0\<rparr>) k). is_hex c"
  by code_simp+

lemma extent_dvd: "4 dvd offset_after d - offset d"
  by (simp add: offset_after_def offset_data_def)

lemma extent_positive: "0 \<le> filesize d \<Longrightarrow> 0 < offset_after d - offset d"
proof -
  assume f: "0 \<le> filesize d"
  have "0 \<le> (filesize d + 3) div 4 * 4" using f by simp
  moreover have "0 < (int ENTRY_HEADER_size + int (length (name d)) + 1 + 3) div 4 * 4"
    by (simp add: ENTRY_HEADER_size_def)
  ultimately show ?thesis by (simp add: offset_after_def offset_data_def)
qed

lemma data_padded_length:
  "int (length data + nat ((4 - int (length data) mod 4) mod 4)) = (int (length data) + 3) div 4 * 4"
proof -
  have "int (nat ((4 - int (length data) mod 4) mod 4)) = (4 - int (length data) mod 4) mod 4"
    by simp
  then show ?thesis using pad4_up [of "int (length data)"] by simp
qed

text \<open>
  The round trip through a closed archive: with the trailer written by \<open>close\<close>, the
  whole scan ends after two calls of \<open>next\<close>, having yielded exactly the member written.
\<close>

lemma round_trip_closed_archive:
  assumes "in_data_model d" and "name d \<noteq> ''TRAILER!!!''"
    and "int (length data) = filesize d"
  shows "\<exists>a0 w1 a1 w2 a2 w3 a3 a4 r0 r1 m m' f'.
      CPIOFile_init \<lparr>content = [], pos = 0\<rparr> ''w'' = Inr a0
    \<and> CPIOFile_open a0 d ''w'' = (Inr (Writer w1), a1)
    \<and> WriteableMember_write w1 a1 data = (w2, a2)
    \<and> WriteableMember_close w2 a2 = (Inr (), w3, a3)
    \<and> CPIOFile_close a3 = (Inr (), a4)
    \<and> CPIOFile_init (fp a4) ''r'' = Inr r0
    \<and> infolist_run 2 Unstarted r0 = ([d\<lparr>offset := 0\<rparr>], Some (Inr ()), r1)
    \<and> CPIOFile_open r1 (d\<lparr>offset := 0\<rparr>) ''r'' = (Inr (Reader m), r1)
    \<and> ReadableMember_read m (fp r1) (- 1) = (Inr data, m', f')"
proof -
  define n where "n = nat ((4 - int (length data) mod 4) mod 4)"
  define body where "body = encode d @ data @ replicate n NUL"
  define st where "st = body @ encode trailer_info"
  define a0 where "a0 = \<lparr>fp = \<lparr>content = [], pos = 0\<rparr>, writeable = True, writer_active = False\<rparr>"
  define w1 where "w1 = \<lparr>expected_length = filesize d, actual_length = 0, closed = False\<rparr>"
  define a1 where "a1 = \<lparr>fp = \<lparr>content = encode d, pos = length (encode d)\<rparr>, writeable = True,
                         writer_active = True\<rparr>"
  define w2 where "w2 = \<lparr>expected_length = filesize d, actual_length = int (length data), closed = False\<rparr>"
  define a2 where "a2 = \<lparr>fp = \<lparr>content = encode d @ data, pos = length (encode d) + length data\<rparr>,
                         writeable = True, writer_active = True\<rparr>"
  define a3 where "a3 = \<lparr>fp = \<lparr>content = body, pos = length body\<rparr>, writeable = True,
                         writer_active = False\<rparr>"
  define a4 where "a4 = \<lparr>fp = \<lparr>content = st, pos = length body + 124\<rparr>, writeable = True,
                         writer_active = False\<rparr>"
  define r0 where "r0 = \<lparr>fp = fp a4, writeable = False, writer_active = False\<rparr>"
  define d0 where "d0 = d\<lparr>offset := 0\<rparr>"
  define f1 where "f1 = \<lparr>content = st, pos = 110 + (length (name d) + 1)\<rparr>"
  define f2 where "f2 = \<lparr>content = st, pos = length body + 121\<rparr>"
  have i0: "CPIOFile_init \<lparr>content = [], pos = 0\<rparr> ''w'' = Inr a0"
    by (simp add: CPIOFile_init_def a0_def)
  have o1: "CPIOFile_open a0 d ''w'' = (Inr (Writer w1), a1)"
    by (simp add: open_write_fresh a0_def w1_def a1_def)
  have wr: "WriteableMember_write w1 a1 data = (w2, a2)"
    by (simp add: WriteableMember_write_def fp_append w1_def a1_def w2_def a2_def)
  have cl: "WriteableMember_close w2 a2 = (Inr (), w2\<lparr>closed := True\<rparr>, a3)"
    using assms(3)
    by (simp add: WriteableMember_close_def fp_append w2_def a2_def a3_def body_def n_def)
  have ac: "CPIOFile_close a3 = (Inr (), a4)"
    by (simp add: close_writeable a3_def a4_def st_def)
  have i1: "CPIOFile_init (fp a4) ''r'' = Inr r0"
    by (simp add: CPIOFile_init_def r0_def)
  have ff1: "from_file \<lparr>content = st, pos = 0\<rparr> = (Inr d0, f1)"
    unfolding st_def body_def d0_def f1_def
    using from_file_encode0 [OF assms(1), of "data @ replicate n NUL @ encode trailer_info"]
    by simp
  have nm: "name d0 \<noteq> ''TRAILER!!!''" using assms(2) by (simp add: d0_def)
  have n1: "infolist_next Unstarted r0 = (Inr (Some d0), Suspended d0, r0\<lparr>fp := f1\<rparr>)"
    using nm by (simp add: infolist_next_def r0_def a4_def fp_seek_def infolist_body_def ff1)
  have oa: "offset_after d0 = int (length body)"
    using assms(3) data_padded_length [of data]
    by (simp add: offset_after_def offset_data_encode d0_def body_def n_def encode_def)
  have ff2: "from_file \<lparr>content = st, pos = length body\<rparr> = (Inr (trailer_info\<lparr>offset := int (length body)\<rparr>), f2)"
    unfolding st_def f2_def
    using from_file_encode [OF in_data_model_trailer, of body "[]"]
    by (simp add: trailer_info_def)
  have n2: "infolist_next (Suspended d0) (r0\<lparr>fp := f1\<rparr>) = (Inr None, Exhausted, r0\<lparr>fp := f2\<rparr>)"
    by (simp add: infolist_next_def oa fp_seek_def f1_def infolist_body_def ff2)
       (simp add: trailer_info_def)
  have run: "infolist_run 2 Unstarted r0 = ([d0], Some (Inr ()), r0\<lparr>fp := f2\<rparr>)"
    by (simp add: numeral_2_eq_2 n1 n2)
  define m where "m = ReadableMember_init d0"
  have o2: "CPIOFile_open (r0\<lparr>fp := f2\<rparr>) d0 ''r'' = (Inr (Reader m), r0\<lparr>fp := f2\<rparr>)"
    by (simp add: CPIOFile_open_def m_def)
  have ms: "r_start m = int (length (encode d))" "r_length m = int (length data)" "r_pos m = 0"
    using assms(3) by (simp_all add: m_def ReadableMember_init_def offset_data_encode d0_def encode_def)
  have cf: "content (fp (r0\<lparr>fp := f2\<rparr>)) = encode d @ data @ (replicate n NUL @ encode trailer_info)"
    by (simp add: f2_def st_def body_def)
  have rd: "ReadableMember_read m (fp (r0\<lparr>fp := f2\<rparr>)) (- 1)
      = (Inr data, m\<lparr>r_pos := int (length data)\<rparr>,
         (fp (r0\<lparr>fp := f2\<rparr>))\<lparr>pos := length (encode d) + length data\<rparr>)"
    by (rule read_member [OF cf ms])
  from i0 o1 wr cl ac i1 run o2 rd show ?thesis
    unfolding d0_def by blast
qed

lemma from_file_lenient:
  "from_file \<lparr>content = lenient_entry, pos = 0\<rparr>
     = (Inr (trailer_info\<lparr>ino := 31\<rparr>), \<lparr>content = lenient_entry, pos = 121\<rparr>)"
  by code_simp

lemma lenient_facts:
  "field (header_at \<lparr>content = lenient_entry, pos = 0\<rparr>) 0 = ''      1f''"
  "field (header_at \<lparr>content = lenient_entry, pos = 0\<rparr>) 1 = ''+00001ed''"
  "\<not> is_hex (CHR '' '')" "\<not> is_hex (CHR ''+'')"
  by code_simp+

lemma from_file_content: "content (snd (from_file f)) = content f"
  by (simp add: from_file_alt Let_def fp_read_def split: prod.splits)

lemma infolist_next_content:
  "infolist_next g a = (r, g', a') \<Longrightarrow>
     content (fp a') = content (fp a) \<and> writeable a' = writeable a \<and> writer_active a' = writer_active a"
proof -
  have b: "infolist_body x = (r, g', a') \<Longrightarrow>
     content (fp a') = content (fp x) \<and> writeable a' = writeable x \<and> writer_active a' = writer_active x" for x
    using from_file_content [of "fp x"]
    by (auto simp: infolist_body_def split: prod.splits sum.splits if_splits)
  assume "infolist_next g a = (r, g', a')"
  then show ?thesis
    by (auto simp: infolist_next_def fp_seek_def split: generator.splits if_splits dest!: b)
qed

lemma infolist_run_content:
  "infolist_run k g a = (ds, r, a') \<Longrightarrow>
     content (fp a') = content (fp a) \<and> writeable a' = writeable a \<and> writer_active a' = writer_active a"
proof (induction k arbitrary: g a ds r a')
  case 0
  then show ?case by simp
next
  case (Suc k)
  obtain r1 g1 a1 where n: "infolist_next g a = (r1, g1, a1)" by (cases "infolist_next g a")
  note c = infolist_next_content [OF n]
  show ?case
  proof (cases r1)
    case (Inl e)
    with Suc.prems n c show ?thesis by simp
  next
    case (Inr o1)
    show ?thesis
    proof (cases o1)
      case None
      with Inr Suc.prems n c show ?thesis by simp
    next
      case (Some i)
      obtain ds2 r2 a2 where r: "infolist_run k g1 a1 = (ds2, r2, a2)" by (cases "infolist_run k g1 a1")
      with Suc.prems n Inr Some have "a' = a2" by simp
      with Suc.IH [OF r] c show ?thesis by simp
    qed
  qed
qed

lemma offset_after_member:
  "int (length data) = filesize d \<Longrightarrow>
     offset_after (d\<lparr>offset := int p\<rparr>) = int (p + length (member_bytes d data))"
  using data_padded_length [of data]
  by (simp add: offset_after_def offset_data_encode member_bytes_def encode_def)

lemma run_placed:
  assumes "list_all valid_member ms"
    and "content (fp a) = pre @ archive_bytes ms @ rest"
    and "(g = Unstarted \<and> pre = []) \<or> (\<exists>i. g = Suspended i \<and> offset_after i = int (length pre))"
  shows "fst (infolist_run (length ms) g a) = placed (length pre) ms
         \<and> fst (snd (infolist_run (length ms) g a)) = None"
  using assms
proof (induction ms arbitrary: pre g a)
  case Nil
  then show ?case by simp
next
  case (Cons m ms)
  obtain d data where m: "m = (d, data)" by (cases m)
  from Cons.prems(1) have vm: "valid_member m" and vs: "list_all valid_member ms"
    by simp_all
  from vm m have v: "in_data_model d" "name d \<noteq> ''TRAILER!!!''"
    "int (length data) = filesize d"
    by (simp_all add: valid_member_def)
  define d' where "d' = d\<lparr>offset := int (length pre)\<rparr>"
  define tl where "tl = drop (length (encode d)) (member_bytes d data) @ archive_bytes ms @ rest"
  have ct: "content (fp a) = pre @ encode d @ tl"
    using Cons.prems(2) m by (simp add: archive_bytes_def member_bytes_def tl_def)
  define f1 where "f1 = \<lparr>content = pre @ encode d @ tl, pos = length pre + 110 + (length (name d) + 1)\<rparr>"
  define f0 where "f0 = \<lparr>content = pre @ encode d @ tl, pos = length pre\<rparr>"
  have ff: "from_file f0 = (Inr d', f1)"
    unfolding d'_def f1_def f0_def by (rule from_file_encode [OF v(1)])
  have nm: "name d' \<noteq> ''TRAILER!!!''" using v(2) by (simp add: d'_def)
  have bd: "infolist_body (a\<lparr>fp := f0\<rparr>) = (Inr (Some d'), Suspended d', a\<lparr>fp := f1\<rparr>)"
    using nm by (simp add: infolist_body_def ff)
  have nx: "infolist_next g a = (Inr (Some d'), Suspended d', a\<lparr>fp := f1\<rparr>)"
    using Cons.prems(3)
  proof
    assume u: "g = Unstarted \<and> pre = []"
    then have "fp_seek (fp a) 0 = Inr f0"
      using ct by (cases "fp a") (simp add: fp_seek_def f0_def)
    with u bd show ?thesis by (simp add: infolist_next_def)
  next
    assume "\<exists>i. g = Suspended i \<and> offset_after i = int (length pre)"
    then obtain i where i: "g = Suspended i" "offset_after i = int (length pre)" by blast
    then have "fp_seek (fp a) (offset_after i) = Inr f0"
      using ct by (cases "fp a") (simp add: fp_seek_def f0_def)
    with i bd show ?thesis by (simp add: infolist_next_def)
  qed
  have oa: "offset_after d' = int (length (pre @ member_bytes d data))"
    unfolding d'_def using offset_after_member [OF v(3), of "length pre"] by simp
  have c2: "content (fp (a\<lparr>fp := f1\<rparr>)) = (pre @ member_bytes d data) @ archive_bytes ms @ rest"
    using Cons.prems(2) m by (simp add: f1_def ct [symmetric] archive_bytes_def)
  have ih: "fst (infolist_run (length ms) (Suspended d') (a\<lparr>fp := f1\<rparr>))
              = placed (length (pre @ member_bytes d data)) ms
          \<and> fst (snd (infolist_run (length ms) (Suspended d') (a\<lparr>fp := f1\<rparr>))) = None"
    by (rule Cons.IH [OF vs c2]) (simp add: oa)
  show ?case
    using ih
    by (cases "infolist_run (length ms) (Suspended d') (a\<lparr>fp := f1\<rparr>)")
       (simp add: nx m d'_def)
qed

lemma placed_append:
  "placed p (ms @ [m]) = placed p ms @ [(fst m)\<lparr>offset := int (p + length (archive_bytes ms))\<rparr>]"
  by (induction ms arbitrary: p) (simp_all add: archive_bytes_def add.assoc)

lemma archive_bytes_snoc:
  "archive_bytes (ms @ [(d, data)]) = archive_bytes ms @ member_bytes d data"
  by (simp add: archive_bytes_def)

lemma valid_hello: "valid_member (hello_info, ''world'')"
  by (simp add: valid_member_def in_data_model_hello) (simp add: hello_info_def)

text \<open>
  Writing a member (open its stream, write the chunks, close it) on a writeable archive
  with no stream open appends \<open>member_bytes\<close> to the store and leaves the archive
  ready for the next member: a store made by such writes is \<open>archive_bytes\<close> of them.
\<close>

lemma write_member:
  assumes "writeable a" and "\<not> writer_active a"
    and "int (length (concat chunks)) = filesize d"
  shows "\<exists>w1 a1 w2 a2 w3 a3.
      CPIOFile_open a d ''w'' = (Inr (Writer w1), a1)
    \<and> foldl (\<lambda>(w, a). WriteableMember_write w a) (w1, a1) chunks = (w2, a2)
    \<and> WriteableMember_close w2 a2 = (Inr (), w3, a3)
    \<and> content (fp a3) = content (fp a) @ member_bytes d (concat chunks)
    \<and> writeable a3 \<and> \<not> writer_active a3"
proof -
  define w1 where "w1 = \<lparr>expected_length = filesize d, actual_length = 0, closed = False\<rparr>"
  define a1 where "a1 = a\<lparr>writer_active := True,
          fp := \<lparr>content = content (fp a) @ encode d,
                  pos = length (content (fp a)) + length (encode d)\<rparr>\<rparr>"
  have o1: "CPIOFile_open a d ''w'' = (Inr (Writer w1), a1)"
    unfolding w1_def a1_def by (rule open_write_fresh [OF assms(1,2)])
  obtain w2 a2 where wr: "foldl (\<lambda>(w, a). WriteableMember_write w a) (w1, a1) chunks = (w2, a2)"
    by (cases "foldl (\<lambda>(w, a). WriteableMember_write w a) (w1, a1) chunks")
  from write_chunks [OF wr]
  have w2: "actual_length w2 = expected_length w2" "\<not> closed w2"
      "actual_length w2 = int (length (concat chunks))"
    and c2: "content (fp a2) = content (fp a) @ encode d @ concat chunks" "writeable a2"
    using assms by (simp_all add: w1_def a1_def)
  define n where "n = nat ((4 - actual_length w2 mod 4) mod 4)"
  define a3 where "a3 = a2\<lparr>fp := \<lparr>content = content (fp a2) @ replicate n NUL,
                         pos = length (content (fp a2)) + n\<rparr>, writer_active := False\<rparr>"
  have cl: "WriteableMember_close w2 a2 = (Inr (), w2\<lparr>closed := True\<rparr>, a3)"
    using w2 by (simp add: WriteableMember_close_def fp_append Let_def n_def a3_def)
  have "content (fp a3) = content (fp a) @ member_bytes d (concat chunks)"
    "writeable a3" "\<not> writer_active a3"
    by (simp_all add: a3_def c2 member_bytes_def n_def w2(3))
  with o1 wr cl show ?thesis by blast
qed

lemma junk_header:
  "header_at \<lparr>content = junk_store @ rest, pos = 0\<rparr> = junk_store"
  by (simp add: header_at_def junk_store_def ENTRY_HEADER_size_def)

lemma junk_magic: "length junk_store = 110" "take 6 junk_store \<noteq> ''070701''"
  by code_simp+

lemma from_file_junk:
  "from_file \<lparr>content = junk_store @ rest, pos = 0\<rparr>
     = (Inl (BadCPIOFile BadMagic), \<lparr>content = junk_store @ rest, pos = 110\<rparr>)"
  by (simp add: from_file_alt junk_header junk_magic)

lemma fp_read_eq:
  "take k (drop (pos f) (content f)) = b \<Longrightarrow> 0 \<le> n \<Longrightarrow> nat n = k \<Longrightarrow>
     fp_read f n = (b, f\<lparr>pos := pos f + length b\<rparr>)"
  by (auto simp: fp_read_def Let_def)

lemma from_file_late:
  assumes "length (header_at x) = 110" and "take 6 (header_at x) = ''070701''"
    and "\<forall>k < 12. py_int16 (field (header_at x) k) \<noteq> None"
    and "the (py_int16 (field (header_at x) 11)) \<noteq> 0"
  shows "from_file x =
     (let v = (\<lambda>k. the (py_int16 (field (header_at x) k)));
          r = fp_read (x\<lparr>pos := pos x + 110\<rparr>) (v 11)
      in if int (length (fst r)) \<noteq> v 11 then (Inl (BadCPIOFile Truncated), snd r)
         else if last (fst r) \<noteq> NUL then (Inl (BadCPIOFile NonNulTerminated), snd r)
         else if \<not> utf8_valid (butlast (fst r)) then (Inl UnicodeDecodeError, snd r)
         else (Inr \<lparr>offset = int (pos x), ino = v 0, mode = v 1, uid = v 2,
                    gid = v 3, nlink = v 4, mtime = v 5, filesize = v 6,
                    devmajor = v 7, devminor = v 8, rdevmajor = v 9,
                    rdevminor = v 10, name = butlast (fst r)\<rparr>, snd r))"
proof -
  have ne: "\<not> (\<exists>k < 12. py_int16 (field (header_at x) k) = None)" using assms(3) by blast
  show ?thesis
    unfolding from_file_alt [of x] Let_def
    using assms(1,2,4) ne by (simp split: prod.splits)
qed

lemma from_file_cong:
  assumes "pos g = pos f" and "length (header_at g) = length (header_at f)"
    and "take 6 (header_at g) = take 6 (header_at f)"
    and "\<forall>k < 12. field (header_at g) k = field (header_at f) k"
    and "drop (pos f + length (header_at f)) (content g)
         = drop (pos f + length (header_at f)) (content f)"
  shows "fst (from_file g) = fst (from_file f)
         \<and> pos (snd (from_file g)) = pos (snd (from_file f))"
proof -
  let ?hf = "header_at f" and ?hg = "header_at g"
  have v: "k < 12 \<Longrightarrow> py_int16 (field ?hg k) = py_int16 (field ?hf k)" for k
    using assms(4) by simp
  have ex: "(\<exists>k < 12. py_int16 (field ?hg k) = None) \<longleftrightarrow> (\<exists>k < 12. py_int16 (field ?hf k) = None)"
    using assms(4) by auto
  show ?thesis
  proof (cases "length ?hf = 110 \<and> take 6 ?hf = ''070701''
        \<and> (\<forall>k < 12. py_int16 (field ?hf k) \<noteq> None) \<and> the (py_int16 (field ?hf 11)) \<noteq> 0")
    case False
    then show ?thesis
      unfolding from_file_alt [of g] from_file_alt [of f] Let_def assms(1,2,3) ex
      by (auto simp: v)
  next
    case True
    then have late: "length ?hf = 110" "take 6 ?hf = ''070701''"
        "\<forall>k < 12. py_int16 (field ?hf k) \<noteq> None" "the (py_int16 (field ?hf 11)) \<noteq> 0"
      by simp_all
    have lg: "length ?hg = 110" "take 6 ?hg = ''070701''"
      "\<forall>k < 12. py_int16 (field ?hg k) \<noteq> None" "the (py_int16 (field ?hg 11)) \<noteq> 0"
      using late assms(2,3) by (simp_all add: v)
    have rd: "fst (fp_read (g\<lparr>pos := pos f + 110\<rparr>) n) = fst (fp_read (f\<lparr>pos := pos f + 110\<rparr>) n)"
      "pos (snd (fp_read (g\<lparr>pos := pos f + 110\<rparr>) n)) = pos (snd (fp_read (f\<lparr>pos := pos f + 110\<rparr>) n))"
      for n
      using assms(5) late(1) by (simp_all add: fp_read_def Let_def)
    show ?thesis
      unfolding from_file_late [OF lg] from_file_late [OF late] Let_def assms(1)
      by (simp add: v rd)
  qed
qed

lemma check_field_replaced:
  assumes "length (header_at f) = 110" and "length chk = 8"
  shows "fst (from_file (f\<lparr>content := take (pos f + 102) (content f) @ chk
                              @ drop (pos f + 110) (content f)\<rparr>)) = fst (from_file f)
       \<and> pos (snd (from_file (f\<lparr>content := take (pos f + 102) (content f) @ chk
                              @ drop (pos f + 110) (content f)\<rparr>))) = pos (snd (from_file f))"
proof -
  define g where "g = f\<lparr>content := take (pos f + 102) (content f) @ chk
                              @ drop (pos f + 110) (content f)\<rparr>"
  have lc: "pos f + 110 \<le> length (content f)"
    using assms(1) by (simp add: header_at_def ENTRY_HEADER_size_def)
  have pg: "pos g = pos f" by (simp add: g_def)
  have hg: "header_at g = take 102 (header_at f) @ chk"
    using lc assms(2)
    by (simp add: header_at_def g_def ENTRY_HEADER_size_def take_add drop_take min_def)
  have l: "length (header_at g) = length (header_at f)"
    using assms by (simp add: hg)
  have m: "take 6 (header_at g) = take 6 (header_at f)"
    using assms(1) by (simp add: hg)
  have fl: "\<forall>k < 12. field (header_at g) k = field (header_at f) k"
  proof (intro allI impI)
    fix k :: nat assume "k < 12"
    then have "6 + 8 * k + 8 \<le> 102" by simp
    then show "field (header_at g) k = field (header_at f) k"
      using assms(1) by (simp add: field_def hg take_drop min_def)
  qed
  have d: "drop (pos f + length (header_at f)) (content g)
         = drop (pos f + length (header_at f)) (content f)"
    using lc assms by (simp add: g_def min_def)
  show ?thesis
    using from_file_cong [OF pg l m fl d] by (simp add: g_def)
qed

lemma from_file_accepts:
  assumes "length (header_at f) = 110" and "take 6 (header_at f) = ''070701''"
    and "\<forall>k < 12. py_int16 (field (header_at f) k) \<noteq> None"
    and "py_int16 (field (header_at f) 11) = Some (int (length n) + 1)"
    and "take (length n + 1) (drop (pos f + 110) (content f)) = n @ [NUL]"
    and "utf8_valid n"
  shows "\<exists>d. from_file f = (Inr d, f\<lparr>pos := pos f + 110 + (length n + 1)\<rparr>) \<and> name d = n"
proof -
  have v11: "the (py_int16 (field (header_at f) 11)) = int (length n) + 1"
    by (simp add: assms(4))
  then have nz: "the (py_int16 (field (header_at f) 11)) \<noteq> 0" by simp
  have rd: "fp_read (f\<lparr>pos := pos f + 110\<rparr>) (int (length n) + 1)
          = (n @ [NUL], (f\<lparr>pos := pos f + 110\<rparr>)\<lparr>pos := pos (f\<lparr>pos := pos f + 110\<rparr>) + length (n @ [NUL])\<rparr>)"
    by (rule fp_read_eq [where k = "length n + 1"]) (use assms(5) in simp_all)
  show ?thesis
    unfolding from_file_late [OF assms(1,2,3) nz] Let_def v11 rd
    using assms(6) by simp
qed

lemma bad_check_replaced:
  "take 102 bad_check_entry @ ''00000000'' @ drop 110 bad_check_entry = encode trailer_info"
  by code_simp

lemma nul_name_facts:
  "length (header_at \<lparr>content = nul_name_entry, pos = 0\<rparr>) = 110"
  "take 6 (header_at \<lparr>content = nul_name_entry, pos = 0\<rparr>) = ''070701''"
  "\<forall>k \<in> set [0..<12]. py_int16 (field (header_at \<lparr>content = nul_name_entry, pos = 0\<rparr>) k) \<noteq> None"
  "py_int16 (field (header_at \<lparr>content = nul_name_entry, pos = 0\<rparr>) 11)
     = Some (int (length [CHR ''a'', NUL, CHR ''b'']) + 1)"
  "take (length [CHR ''a'', NUL, CHR ''b''] + 1) (drop (0 + 110) nul_name_entry)
     = [CHR ''a'', NUL, CHR ''b''] @ [NUL]"
  "utf8_valid [CHR ''a'', NUL, CHR ''b'']"
  "NUL \<in> set [CHR ''a'', NUL, CHR ''b'']"
  by code_simp+

section \<open>Writing a member and reading it back\<close>

text \<open>
  C1 (as amended). Let the store hold the members \<open>ms\<close> written earlier (none, for an empty
  store), each a descriptor of the data model not named \<open>TRAILER!!!\<close> with data of its
  declared size. Let \<open>d\<close> be a descriptor of the data model (every numeric field and the
  name size an unsigned 32-bit value, the name well-formed UTF-8) whose name is not
  \<open>TRAILER!!!\<close>. Open an archive in write mode over the store, open a write stream for
  \<open>d\<close>, write chunks of data whose total length is the declared size, close the stream.
  Then, on an archive opened for reading over the same store, the scan yields the earlier
  members and then the descriptor with the numeric fields and the name of \<open>d\<close> (its header
  offset being where the store ended), and the read stream of that descriptor returns
  exactly the bytes written, and nothing after.
\<close>

theorem C1_round_trip:
  assumes "list_all valid_member ms"
    and "in_data_model d" and "name d \<noteq> ''TRAILER!!!''"
    and "int (length (concat chunks)) = filesize d"
  shows "\<exists>a0 w1 a1 w2 a2 w3 a3 r0 r1 m m' f' m'' f''.
      CPIOFile_init \<lparr>content = archive_bytes ms, pos = p\<rparr> ''w'' = Inr a0
    \<and> CPIOFile_open a0 d ''w'' = (Inr (Writer w1), a1)
    \<and> foldl (\<lambda>(w, a). WriteableMember_write w a) (w1, a1) chunks = (w2, a2)
    \<and> WriteableMember_close w2 a2 = (Inr (), w3, a3)
    \<and> CPIOFile_init (fp a3) ''r'' = Inr r0
    \<and> infolist_run (length ms + 1) Unstarted r0
        = (placed 0 ms @ [d\<lparr>offset := int (length (archive_bytes ms))\<rparr>], None, r1)
    \<and> CPIOFile_open r1 (d\<lparr>offset := int (length (archive_bytes ms))\<rparr>) ''r''
        = (Inr (Reader m), r1)
    \<and> ReadableMember_read m (fp r1) (- 1) = (Inr (concat chunks), m', f')
    \<and> ReadableMember_read m' f' (- 1) = (Inr [], m'', f'')"
proof -
  let ?data = "concat chunks"
  let ?old = "archive_bytes ms"
  define a0 where "a0 = \<lparr>fp = \<lparr>content = ?old, pos = p\<rparr>, writeable = True, writer_active = False\<rparr>"
  have i0: "CPIOFile_init \<lparr>content = ?old, pos = p\<rparr> ''w'' = Inr a0"
    by (simp add: CPIOFile_init_def a0_def)
  define w1 where "w1 = \<lparr>expected_length = filesize d, actual_length = 0, closed = False\<rparr>"
  define a1 where "a1 = a0\<lparr>writer_active := True,
          fp := \<lparr>content = content (fp a0) @ encode d,
                  pos = length (content (fp a0)) + length (encode d)\<rparr>\<rparr>"
  have o1: "CPIOFile_open a0 d ''w'' = (Inr (Writer w1), a1)"
    unfolding w1_def a1_def by (rule open_write_fresh) (simp_all add: a0_def)
  obtain w2 a2 where wr: "foldl (\<lambda>(w, a). WriteableMember_write w a) (w1, a1) chunks = (w2, a2)"
    by (cases "foldl (\<lambda>(w, a). WriteableMember_write w a) (w1, a1) chunks")
  from write_chunks [OF wr]
  have w2: "actual_length w2 = expected_length w2" "\<not> closed w2"
      "actual_length w2 = int (length ?data)"
    and c2: "content (fp a2) = ?old @ encode d @ ?data"
    using assms(4) by (simp_all add: w1_def a1_def a0_def)
  define n where "n = nat ((4 - actual_length w2 mod 4) mod 4)"
  define a3 where "a3 = a2\<lparr>fp := \<lparr>content = content (fp a2) @ replicate n NUL,
                         pos = length (content (fp a2)) + n\<rparr>, writer_active := False\<rparr>"
  have cl: "WriteableMember_close w2 a2 = (Inr (), w2\<lparr>closed := True\<rparr>, a3)"
    using w2 by (simp add: WriteableMember_close_def fp_append Let_def n_def a3_def)
  have c3: "content (fp a3) = [] @ archive_bytes (ms @ [(d, ?data)]) @ []"
    by (simp add: a3_def c2 archive_bytes_snoc member_bytes_def n_def w2(3))
  define r0 where "r0 = \<lparr>fp = fp a3, writeable = False, writer_active = False\<rparr>"
  have i1: "CPIOFile_init (fp a3) ''r'' = Inr r0"
    by (simp add: CPIOFile_init_def r0_def)
  define d0 where "d0 = d\<lparr>offset := int (length ?old)\<rparr>"
  have vs: "list_all valid_member (ms @ [(d, ?data)])"
    using assms by (simp add: valid_member_def)
  have c0: "content (fp r0) = [] @ archive_bytes (ms @ [(d, ?data)]) @ []"
    using c3 by (simp add: r0_def)
  from run_placed [OF vs c0, of Unstarted]
  have rp: "fst (infolist_run (length ms + 1) Unstarted r0) = placed 0 ms @ [d0]"
      "fst (snd (infolist_run (length ms + 1) Unstarted r0)) = None"
    by (simp_all add: placed_append d0_def)
  obtain r1 where run: "infolist_run (length ms + 1) Unstarted r0 = (placed 0 ms @ [d0], None, r1)"
    using rp by (cases "infolist_run (length ms + 1) Unstarted r0") auto
  from infolist_run_content [OF run]
  have cr: "content (fp r1) = (?old @ encode d) @ ?data @ replicate n NUL"
    by (simp add: r0_def a3_def c2)
  define m where "m = ReadableMember_init d0"
  have o2: "CPIOFile_open r1 d0 ''r'' = (Inr (Reader m), r1)"
    by (simp add: CPIOFile_open_def m_def)
  have ms: "r_start m = int (length (?old @ encode d))" "r_length m = int (length ?data)" "r_pos m = 0"
    using assms(4) by (simp_all add: m_def ReadableMember_init_def offset_data_encode d0_def encode_def)
  define m' where "m' = m\<lparr>r_pos := int (length ?data)\<rparr>"
  define f' where "f' = (fp r1)\<lparr>pos := length (?old @ encode d) + length ?data\<rparr>"
  have rd: "ReadableMember_read m (fp r1) (- 1) = (Inr ?data, m', f')"
    unfolding m'_def f'_def by (rule read_member [OF cr ms])
  have "ReadableMember_read m' f' (- 1) = (Inr [], m', f'\<lparr>pos := nat (r_start m' + r_pos m')\<rparr>)"
    by (rule read_member_end) (simp_all add: m'_def ms)
  with i0 o1 wr cl i1 run o2 rd show ?thesis
    unfolding d0_def by blast
qed

theorem C1_round_trip_witness:
  "list_all valid_member [(hello_info, ''world'')]
   \<and> in_data_model hello_info \<and> name hello_info \<noteq> ''TRAILER!!!''
   \<and> int (length (concat [''wor'', ''ld''])) = filesize hello_info
   \<and> (\<exists>a0 w1 a1 w2 a2 w3 a3 r0 r1 m m' f' m'' f''.
      CPIOFile_init \<lparr>content = archive_bytes [(hello_info, ''world'')], pos = 0\<rparr> ''w'' = Inr a0
    \<and> CPIOFile_open a0 hello_info ''w'' = (Inr (Writer w1), a1)
    \<and> foldl (\<lambda>(w, a). WriteableMember_write w a) (w1, a1) [''wor'', ''ld''] = (w2, a2)
    \<and> WriteableMember_close w2 a2 = (Inr (), w3, a3)
    \<and> CPIOFile_init (fp a3) ''r'' = Inr r0
    \<and> infolist_run (length [(hello_info, ''world'')] + 1) Unstarted r0
        = (placed 0 [(hello_info, ''world'')]
             @ [hello_info\<lparr>offset := int (length (archive_bytes [(hello_info, ''world'')]))\<rparr>],
           None, r1)
    \<and> CPIOFile_open r1
          (hello_info\<lparr>offset := int (length (archive_bytes [(hello_info, ''world'')]))\<rparr>) ''r''
        = (Inr (Reader m), r1)
    \<and> ReadableMember_read m (fp r1) (- 1) = (Inr (concat [''wor'', ''ld'']), m', f')
    \<and> ReadableMember_read m' f' (- 1) = (Inr [], m'', f''))"
proof -
  have h0: "list_all valid_member [(hello_info, ''world'')]" by (simp add: valid_hello)
  have h1: "in_data_model hello_info" by (rule in_data_model_hello)
  have h2: "name hello_info \<noteq> ''TRAILER!!!''" by (simp add: hello_info_def)
  have h3: "int (length (concat [''wor'', ''ld''])) = filesize hello_info"
    by (simp add: hello_info_def)
  show ?thesis
    by (intro conjI h0 h1 h2 h3 C1_round_trip [OF h0 h1 h2 h3])
qed

text \<open>
  The claim as stated fails for the name \<open>TRAILER!!!\<close>: the member is written like any
  other, and the scan ends at its header without yielding it. It fails as well over a
  store that holds something else than members: the member is appended, and the scan,
  which starts at offset 0, stops at the bad magic.
\<close>

theorem C1_sentinel_or_junk_counterexample:
  "in_data_model trailer_info
   \<and> int (length (concat ([] :: bytes list))) = filesize trailer_info
   \<and> CPIOFile_init \<lparr>content = [], pos = 0\<rparr> ''w''
       = Inr \<lparr>fp = \<lparr>content = [], pos = 0\<rparr>, writeable = True, writer_active = False\<rparr>
   \<and> CPIOFile_open \<lparr>fp = \<lparr>content = [], pos = 0\<rparr>, writeable = True, writer_active = False\<rparr>
         trailer_info ''w''
       = (Inr (Writer \<lparr>expected_length = 0, actual_length = 0, closed = False\<rparr>),
          \<lparr>fp = \<lparr>content = encode trailer_info, pos = 124\<rparr>, writeable = True,
           writer_active = True\<rparr>)
   \<and> WriteableMember_close \<lparr>expected_length = 0, actual_length = 0, closed = False\<rparr>
         \<lparr>fp = \<lparr>content = encode trailer_info, pos = 124\<rparr>, writeable = True,
          writer_active = True\<rparr>
       = (Inr (), \<lparr>expected_length = 0, actual_length = 0, closed = True\<rparr>,
          \<lparr>fp = \<lparr>content = encode trailer_info, pos = 124\<rparr>, writeable = True,
           writer_active = False\<rparr>)
   \<and> CPIOFile_init \<lparr>content = encode trailer_info, pos = 124\<rparr> ''r''
       = Inr \<lparr>fp = \<lparr>content = encode trailer_info, pos = 124\<rparr>, writeable = False,
              writer_active = False\<rparr>
   \<and> infolist_next Unstarted
         \<lparr>fp = \<lparr>content = encode trailer_info, pos = 124\<rparr>, writeable = False,
          writer_active = False\<rparr>
       = (Inr None, Exhausted,
          \<lparr>fp = \<lparr>content = encode trailer_info, pos = 121\<rparr>, writeable = False,
           writer_active = False\<rparr>)
   \<and> in_data_model hello_info \<and> name hello_info \<noteq> ''TRAILER!!!''
   \<and> int (length ''world'') = filesize hello_info
   \<and> CPIOFile_open \<lparr>fp = \<lparr>content = junk_store, pos = 0\<rparr>, writeable = True,
                      writer_active = False\<rparr> hello_info ''w''
       = (Inr (Writer \<lparr>expected_length = 5, actual_length = 0, closed = False\<rparr>),
          \<lparr>fp = \<lparr>content = junk_store @ encode hello_info, pos = 230\<rparr>, writeable = True,
           writer_active = True\<rparr>)
   \<and> WriteableMember_write \<lparr>expected_length = 5, actual_length = 0, closed = False\<rparr>
         \<lparr>fp = \<lparr>content = junk_store @ encode hello_info, pos = 230\<rparr>, writeable = True,
          writer_active = True\<rparr> ''world''
       = (\<lparr>expected_length = 5, actual_length = 5, closed = False\<rparr>,
          \<lparr>fp = \<lparr>content = junk_store @ encode hello_info @ ''world'', pos = 235\<rparr>,
           writeable = True, writer_active = True\<rparr>)
   \<and> WriteableMember_close \<lparr>expected_length = 5, actual_length = 5, closed = False\<rparr>
         \<lparr>fp = \<lparr>content = junk_store @ encode hello_info @ ''world'', pos = 235\<rparr>,
          writeable = True, writer_active = True\<rparr>
       = (Inr (), \<lparr>expected_length = 5, actual_length = 5, closed = True\<rparr>,
          \<lparr>fp = \<lparr>content = junk_store @ encode hello_info @ ''world'' @ replicate 3 NUL,
                  pos = 238\<rparr>, writeable = True, writer_active = False\<rparr>)
   \<and> infolist_next Unstarted
         \<lparr>fp = \<lparr>content = junk_store @ encode hello_info @ ''world'' @ replicate 3 NUL,
                 pos = 238\<rparr>, writeable = False, writer_active = False\<rparr>
       = (Inl (BadCPIOFile BadMagic), Exhausted,
          \<lparr>fp = \<lparr>content = junk_store @ encode hello_info @ ''world'' @ replicate 3 NUL,
                  pos = 110\<rparr>, writeable = False, writer_active = False\<rparr>)"
proof -
  have ff: "from_file \<lparr>content = encode trailer_info, pos = 0\<rparr>
      = (Inr trailer_info, \<lparr>content = encode trailer_info, pos = 121\<rparr>)"
    using from_file_encode0 [OF in_data_model_trailer, of "[]"] by (simp add: trailer_info_def)
  have op: "CPIOFile_open \<lparr>fp = \<lparr>content = [], pos = 0\<rparr>, writeable = True, writer_active = False\<rparr>
         trailer_info ''w''
       = (Inr (Writer \<lparr>expected_length = 0, actual_length = 0, closed = False\<rparr>),
          \<lparr>fp = \<lparr>content = encode trailer_info, pos = 124\<rparr>, writeable = True,
           writer_active = True\<rparr>)"
    by (simp add: open_write_fresh length_encode_trailer) (simp add: trailer_info_def)
  have cl: "WriteableMember_close \<lparr>expected_length = 0, actual_length = 0, closed = False\<rparr>
         \<lparr>fp = \<lparr>content = encode trailer_info, pos = 124\<rparr>, writeable = True,
          writer_active = True\<rparr>
       = (Inr (), \<lparr>expected_length = 0, actual_length = 0, closed = True\<rparr>,
          \<lparr>fp = \<lparr>content = encode trailer_info, pos = 124\<rparr>, writeable = True,
           writer_active = False\<rparr>)"
    by (simp add: WriteableMember_close_def fp_append length_encode_trailer)
  have nx: "infolist_next Unstarted
         \<lparr>fp = \<lparr>content = encode trailer_info, pos = 124\<rparr>, writeable = False,
          writer_active = False\<rparr>
       = (Inr None, Exhausted,
          \<lparr>fp = \<lparr>content = encode trailer_info, pos = 121\<rparr>, writeable = False,
           writer_active = False\<rparr>)"
    by (simp add: infolist_next_def fp_seek_def infolist_body_def ff) (simp add: trailer_info_def)
  have h: "in_data_model hello_info" "name hello_info \<noteq> ''TRAILER!!!''"
    "int (length ''world'') = filesize hello_info"
    by (simp_all add: in_data_model_hello) (simp_all add: hello_info_def)
  have jo: "CPIOFile_open \<lparr>fp = \<lparr>content = junk_store, pos = 0\<rparr>, writeable = True,
                      writer_active = False\<rparr> hello_info ''w''
       = (Inr (Writer \<lparr>expected_length = 5, actual_length = 0, closed = False\<rparr>),
          \<lparr>fp = \<lparr>content = junk_store @ encode hello_info, pos = 230\<rparr>, writeable = True,
           writer_active = True\<rparr>)"
    by (simp add: open_write_fresh length_encode_hello junk_magic) (simp add: hello_info_def)
  have jw: "WriteableMember_write \<lparr>expected_length = 5, actual_length = 0, closed = False\<rparr>
         \<lparr>fp = \<lparr>content = junk_store @ encode hello_info, pos = 230\<rparr>, writeable = True,
          writer_active = True\<rparr> ''world''
       = (\<lparr>expected_length = 5, actual_length = 5, closed = False\<rparr>,
          \<lparr>fp = \<lparr>content = junk_store @ encode hello_info @ ''world'', pos = 235\<rparr>,
           writeable = True, writer_active = True\<rparr>)"
    by (simp add: WriteableMember_write_def fp_append length_encode_hello junk_magic)
  have jc: "WriteableMember_close \<lparr>expected_length = 5, actual_length = 5, closed = False\<rparr>
         \<lparr>fp = \<lparr>content = junk_store @ encode hello_info @ ''world'', pos = 235\<rparr>,
          writeable = True, writer_active = True\<rparr>
       = (Inr (), \<lparr>expected_length = 5, actual_length = 5, closed = True\<rparr>,
          \<lparr>fp = \<lparr>content = junk_store @ encode hello_info @ ''world'' @ replicate 3 NUL,
                  pos = 238\<rparr>, writeable = True, writer_active = False\<rparr>)"
    by (simp add: WriteableMember_close_def fp_append length_encode_hello junk_magic
        numeral_3_eq_3)
  have jn: "infolist_next Unstarted
         \<lparr>fp = \<lparr>content = junk_store @ encode hello_info @ ''world'' @ replicate 3 NUL,
                 pos = 238\<rparr>, writeable = False, writer_active = False\<rparr>
       = (Inl (BadCPIOFile BadMagic), Exhausted,
          \<lparr>fp = \<lparr>content = junk_store @ encode hello_info @ ''world'' @ replicate 3 NUL,
                  pos = 110\<rparr>, writeable = False, writer_active = False\<rparr>)"
    by (simp add: infolist_next_def fp_seek_def infolist_body_def from_file_junk)
  have i0: "CPIOFile_init \<lparr>content = [], pos = 0\<rparr> ''w''
       = Inr \<lparr>fp = \<lparr>content = [], pos = 0\<rparr>, writeable = True, writer_active = False\<rparr>"
    "CPIOFile_init \<lparr>content = encode trailer_info, pos = 124\<rparr> ''r''
       = Inr \<lparr>fp = \<lparr>content = encode trailer_info, pos = 124\<rparr>, writeable = False,
              writer_active = False\<rparr>"
    by (simp_all add: CPIOFile_init_def)
  have l0: "int (length (concat ([] :: bytes list))) = filesize trailer_info"
    by (simp add: trailer_info_def)
  show ?thesis
    by (intro conjI in_data_model_trailer l0 i0 op cl nx h jo jw jc jn)
qed

section \<open>Decoding a header\<close>

text \<open>
  C2 (as amended). For a complete header block with the magic \<open>070701\<close>: when one of the
  twelve fields \<open>ino\<close> to \<open>namesize\<close> holds a byte that can occur in no literal
  \<open>int(b, 16)\<close> accepts (a byte that is neither a hexadecimal digit, nor white space, a
  sign, an underscore, \<open>x\<close> or \<open>X\<close>), decoding raises \<open>BadCPIOFile\<close> for a non-hex
  integer; when the twelve fields hold hexadecimal digits only, that error is not raised
  and a descriptor decoded has the fields' hexadecimal values. The thirteenth field,
  \<open>check\<close>, is never examined: with any eight bytes in its place the decoder returns the
  same descriptor or raises the same error, and leaves the store at the same position.
\<close>

theorem C2_non_hex_fields:
  "length (header_at f) = 110 \<Longrightarrow> take 6 (header_at f) = ''070701'' \<Longrightarrow>
     (k < 12 \<and> c \<in> set (field (header_at f) k) \<and> \<not> int16_char c \<longrightarrow>
        from_file f = (Inl (BadCPIOFile NonHexInteger), f\<lparr>pos := pos f + 110\<rparr>))
     \<and> ((\<forall>k < 12. \<forall>c \<in> set (field (header_at f) k). is_hex c) \<longrightarrow>
          fst (from_file f) \<noteq> Inl (BadCPIOFile NonHexInteger)
          \<and> (\<forall>d f'. from_file f = (Inr d, f') \<longrightarrow>
                [ino d, mode d, uid d, gid d, nlink d, mtime d, filesize d, devmajor d,
                 devminor d, rdevmajor d, rdevminor d]
                  = map (\<lambda>k. hex_value (field (header_at f) k)) [0..<11]))
     \<and> (length chk = 8 \<longrightarrow>
          fst (from_file (f\<lparr>content := take (pos f + 102) (content f) @ chk
                                @ drop (pos f + 110) (content f)\<rparr>))
            = fst (from_file f)
          \<and> pos (snd (from_file (f\<lparr>content := take (pos f + 102) (content f) @ chk
                                @ drop (pos f + 110) (content f)\<rparr>)))
            = pos (snd (from_file f)))"
  using from_file_non_hex [of f k c] from_file_all_hex [of f] check_field_replaced [of f chk]
  by blast

theorem C2_non_hex_fields_witness:
  "length (header_at \<lparr>content = non_hex_entry, pos = 0\<rparr>) = 110
   \<and> take 6 (header_at \<lparr>content = non_hex_entry, pos = 0\<rparr>) = ''070701''
   \<and> CHR ''g'' \<in> set (field (header_at \<lparr>content = non_hex_entry, pos = 0\<rparr>) 0)
   \<and> \<not> int16_char (CHR ''g'')
   \<and> from_file \<lparr>content = non_hex_entry, pos = 0\<rparr>
       = (Inl (BadCPIOFile NonHexInteger), \<lparr>content = non_hex_entry, pos = 110\<rparr>)
   \<and> length (header_at \<lparr>content = bad_check_entry, pos = 0\<rparr>) = 110
   \<and> take 6 (header_at \<lparr>content = bad_check_entry, pos = 0\<rparr>) = ''070701''
   \<and> fst (from_file \<lparr>content = bad_check_entry, pos = 0\<rparr>) \<noteq> Inl (BadCPIOFile NonHexInteger)
   \<and> length ''00000000'' = 8
   \<and> fst (from_file \<lparr>content = encode trailer_info, pos = 0\<rparr>)
       = fst (from_file \<lparr>content = bad_check_entry, pos = 0\<rparr>)"
proof -
  have h: "\<forall>k < 12. \<forall>c \<in> set (field (header_at \<lparr>content = bad_check_entry, pos = 0\<rparr>) k). is_hex c"
    using bad_check_facts(5) by simp
  from C2_non_hex_fields [OF non_hex_facts(1,2), of 0 "CHR ''g''"] non_hex_facts(3,4)
  have a: "from_file \<lparr>content = non_hex_entry, pos = 0\<rparr>
       = (Inl (BadCPIOFile NonHexInteger), \<lparr>content = non_hex_entry, pos = 110\<rparr>)"
    by simp
  from C2_non_hex_fields [OF bad_check_facts(1,2), of 0 "CHR ''g''"] h
  have b: "fst (from_file \<lparr>content = bad_check_entry, pos = 0\<rparr>) \<noteq> Inl (BadCPIOFile NonHexInteger)"
    by blast
  have l: "length ''00000000'' = 8" by simp
  from C2_non_hex_fields [OF bad_check_facts(1,2), of 0 "CHR ''g''" "''00000000''"]
  have c: "fst (from_file \<lparr>content = encode trailer_info, pos = 0\<rparr>)
       = fst (from_file \<lparr>content = bad_check_entry, pos = 0\<rparr>)"
    using bad_check_replaced by simp
  show ?thesis
    by (intro conjI non_hex_facts bad_check_facts(1,2) a b l c)
qed

text \<open>
  The claim as stated fails: the trailer entry with \<open>zzzzzzzz\<close> for its check field
  decodes, and so does the one whose first field has leading spaces and whose second has
  a sign, which \<open>int(b, 16)\<close> accepts.
\<close>

theorem C2_check_field_counterexample:
  "length (header_at \<lparr>content = bad_check_entry, pos = 0\<rparr>) = 110
   \<and> take 6 (header_at \<lparr>content = bad_check_entry, pos = 0\<rparr>) = ''070701''
   \<and> field (header_at \<lparr>content = bad_check_entry, pos = 0\<rparr>) 12 = ''zzzzzzzz''
   \<and> \<not> is_hex (CHR ''z'')
   \<and> from_file \<lparr>content = bad_check_entry, pos = 0\<rparr>
     = (Inr trailer_info, \<lparr>content = bad_check_entry, pos = 121\<rparr>)
   \<and> field (header_at \<lparr>content = lenient_entry, pos = 0\<rparr>) 0 = ''      1f''
   \<and> field (header_at \<lparr>content = lenient_entry, pos = 0\<rparr>) 1 = ''+00001ed''
   \<and> \<not> is_hex (CHR '' '') \<and> \<not> is_hex (CHR ''+'')
   \<and> from_file \<lparr>content = lenient_entry, pos = 0\<rparr>
     = (Inr (trailer_info\<lparr>ino := 31\<rparr>), \<lparr>content = lenient_entry, pos = 121\<rparr>)"
  by (intro conjI bad_check_facts(1-4) from_file_bad_check lenient_facts from_file_lenient)

text \<open>
  C3 (as amended). A header whose name size field reads 0 fails to decode with
  \<open>BadCPIOFile\<close>. A descriptor that is decoded has a name size \<open>ns \<ge> 1\<close>; the \<open>ns\<close> bytes
  after the header are its name followed by one NUL byte, so the name has \<open>ns - 1\<close>
  bytes. NUL bytes before the last byte of the block are not refused: after a complete
  header with the magic and twelve fields \<open>int(b, 16)\<close> accepts, a name block that is a
  non-empty well-formed UTF-8 sequence \<open>n\<close>, with or without NUL bytes in it, followed by a
  NUL byte, of the size the header states, decodes to a descriptor whose name is \<open>n\<close>.
\<close>

theorem C3_decoded_name:
  "(py_int16 (field (header_at f) 11) = Some 0 \<longrightarrow> (\<exists>b. fst (from_file f) = Inl (BadCPIOFile b)))
   \<and> (from_file f = (Inr d, f') \<longrightarrow>
        (\<exists>ns. py_int16 (field (header_at f) 11) = Some ns \<and> 1 \<le> ns
            \<and> int (length (name d)) = ns - 1
            \<and> take (nat ns) (drop (pos f + 110) (content f)) = name d @ [NUL]))
   \<and> (length (header_at f) = 110 \<and> take 6 (header_at f) = ''070701''
        \<and> (\<forall>k < 12. py_int16 (field (header_at f) k) \<noteq> None)
        \<and> py_int16 (field (header_at f) 11) = Some (int (length n) + 1)
        \<and> take (length n + 1) (drop (pos f + 110) (content f)) = n @ [NUL]
        \<and> n \<noteq> [] \<and> utf8_valid n \<longrightarrow>
        (\<exists>d'. from_file f = (Inr d', f\<lparr>pos := pos f + 110 + (length n + 1)\<rparr>) \<and> name d' = n))"
  using from_file_zero [of f] from_file_name [of f d f'] from_file_accepts [of f n] by blast

theorem C3_decoded_name_witness:
  "py_int16 (field (header_at \<lparr>content = zero_namesize_entry, pos = 0\<rparr>) 11) = Some 0
   \<and> (\<exists>b. fst (from_file \<lparr>content = zero_namesize_entry, pos = 0\<rparr>) = Inl (BadCPIOFile b))
   \<and> from_file \<lparr>content = hello_store, pos = 0\<rparr>
       = (Inr hello_info, \<lparr>content = hello_store, pos = 120\<rparr>)
   \<and> (\<exists>ns. py_int16 (field (header_at \<lparr>content = hello_store, pos = 0\<rparr>) 11) = Some ns \<and> 1 \<le> ns
            \<and> int (length (name hello_info)) = ns - 1
            \<and> take (nat ns) (drop (pos \<lparr>content = hello_store, pos = 0\<rparr> + 110)
                 (content \<lparr>content = hello_store, pos = 0\<rparr>)) = name hello_info @ [NUL])
   \<and> length (header_at \<lparr>content = nul_name_entry, pos = 0\<rparr>) = 110
   \<and> take 6 (header_at \<lparr>content = nul_name_entry, pos = 0\<rparr>) = ''070701''
   \<and> utf8_valid [CHR ''a'', NUL, CHR ''b'']
   \<and> NUL \<in> set [CHR ''a'', NUL, CHR ''b'']
   \<and> (\<exists>d'. from_file \<lparr>content = nul_name_entry, pos = 0\<rparr>
               = (Inr d', \<lparr>content = nul_name_entry, pos = 114\<rparr>)
             \<and> name d' = [CHR ''a'', NUL, CHR ''b''])"
proof -
  have p: "\<forall>k < 12. py_int16 (field (header_at \<lparr>content = nul_name_entry, pos = 0\<rparr>) k) \<noteq> None"
    using nul_name_facts(3) by simp
  have t: "take (length [CHR ''a'', NUL, CHR ''b''] + 1)
             (drop (pos \<lparr>content = nul_name_entry, pos = 0\<rparr> + 110)
                (content \<lparr>content = nul_name_entry, pos = 0\<rparr>))
           = [CHR ''a'', NUL, CHR ''b''] @ [NUL]"
    using nul_name_facts(5) by simp
  have ne: "[CHR ''a'', NUL, CHR ''b''] \<noteq> []" by simp
  from C3_decoded_name [of "\<lparr>content = nul_name_entry, pos = 0\<rparr>" hello_info
                           "\<lparr>content = nul_name_entry, pos = 0\<rparr>" "[CHR ''a'', NUL, CHR ''b'']"]
    nul_name_facts(1,2,4,6) p t ne
  have acc: "\<exists>d'. from_file \<lparr>content = nul_name_entry, pos = 0\<rparr>
               = (Inr d', \<lparr>content = nul_name_entry, pos = 114\<rparr>)
             \<and> name d' = [CHR ''a'', NUL, CHR ''b'']"
    by simp
  have z: "\<exists>b. fst (from_file \<lparr>content = zero_namesize_entry, pos = 0\<rparr>) = Inl (BadCPIOFile b)"
    using C3_decoded_name [of "\<lparr>content = zero_namesize_entry, pos = 0\<rparr>"] field11_zero by blast
  have hn: "\<exists>ns. py_int16 (field (header_at \<lparr>content = hello_store, pos = 0\<rparr>) 11) = Some ns \<and> 1 \<le> ns
            \<and> int (length (name hello_info)) = ns - 1
            \<and> take (nat ns) (drop (pos \<lparr>content = hello_store, pos = 0\<rparr> + 110)
                 (content \<lparr>content = hello_store, pos = 0\<rparr>)) = name hello_info @ [NUL]"
    using C3_decoded_name [of "\<lparr>content = hello_store, pos = 0\<rparr>" hello_info
                            "\<lparr>content = hello_store, pos = 120\<rparr>"] from_file_hello
    by blast
  show ?thesis
    by (intro conjI field11_zero z from_file_hello hn nul_name_facts(1,2,6,7) acc)
qed

text \<open>
  The claim as stated fails: a name block that is the terminator alone decodes to the
  empty name, and a NUL byte before the terminator stays in the decoded name.
\<close>

theorem C3_empty_or_nul_name_counterexample:
  "from_file \<lparr>content = empty_name_entry, pos = 0\<rparr>
     = (Inr (blank_info []), \<lparr>content = empty_name_entry, pos = 111\<rparr>)
   \<and> name (blank_info []) = []
   \<and> from_file \<lparr>content = nul_name_entry, pos = 0\<rparr>
     = (Inr (blank_info [CHR ''a'', NUL, CHR ''b'']), \<lparr>content = nul_name_entry, pos = 114\<rparr>)
   \<and> NUL \<in> set (name (blank_info [CHR ''a'', NUL, CHR ''b'']))"
  by (simp add: from_file_empty_name from_file_nul_name blank_info_def)

text \<open>
  C5. The code at an entry whose size field is \<open>-0000070\<close>: \<open>int(b, 16)\<close> accepts the
  sign, the descriptor has the size -112, its end is its own header offset, and the scan
  yields the same descriptor at every call, never reaching an end.
\<close>

theorem C5_negative_size_entry:
  "from_file \<lparr>content = negative_size_entry, pos = 0\<rparr>
     = (Inr negative_size_info, \<lparr>content = negative_size_entry, pos = 112\<rparr>)
   \<and> offset_after negative_size_info - offset negative_size_info = 0
   \<and> (\<forall>k. fst (infolist_run k Unstarted
                 \<lparr>fp = \<lparr>content = negative_size_entry, pos = 0\<rparr>, writeable = False,
                  writer_active = False\<rparr>) = replicate k negative_size_info
          \<and> fst (snd (infolist_run k Unstarted
                 \<lparr>fp = \<lparr>content = negative_size_entry, pos = 0\<rparr>, writeable = False,
                  writer_active = False\<rparr>)) = None)"
  using negative_run [of "\<lparr>fp = \<lparr>content = negative_size_entry, pos = 0\<rparr>, writeable = False,
                  writer_active = False\<rparr>" Unstarted]
  by (simp add: from_file_negative_size offset_after_def offset_data_def negative_size_info_def
      ENTRY_HEADER_size_def)

theorem C5_negative_size_entry_witness:
  "fst (infolist_run 5 Unstarted
          \<lparr>fp = \<lparr>content = negative_size_entry, pos = 0\<rparr>, writeable = False,
           writer_active = False\<rparr>) = replicate 5 negative_size_info"
  using C5_negative_size_entry by blast

section \<open>The scan\<close>

text \<open>
  C4. Every descriptor the scan yields has its data at
  \<open>align4 (header offset + 110 + length of the name + 1)\<close> and its end at
  \<open>align4 (data offset + data size)\<close>: the scan starts at 0 and continues at the end of the
  entry before, so every header offset is a multiple of 4, and adding the rounded sizes to
  it is rounding the sums.
\<close>

theorem C4_offsets_aligned:
  "d \<in> set (fst (infolist_run k Unstarted a)) \<Longrightarrow>
     offset_data d = align4 (offset d + 110 + int (length (name d)) + 1)
     \<and> offset_after d = align4 (offset_data d + filesize d)"
proof -
  assume "d \<in> set (fst (infolist_run k Unstarted a))"
  then have a4: "4 dvd offset d"
    by (rule infolist_run_aligned) simp
  have od: "offset_data d = align4 (offset d + (110 + int (length (name d)) + 1))"
    unfolding offset_data_def ENTRY_HEADER_size_def
    using align4_shift [OF a4, of "110 + int (length (name d)) + 1"] by simp
  have "4 dvd offset_data d"
    using a4 by (simp add: offset_data_def)
  then have "offset_after d = align4 (offset_data d + filesize d)"
    unfolding offset_after_def by (rule align4_shift)
  with od show ?thesis by (simp add: add.assoc)
qed

theorem C4_offsets_aligned_witness:
  "hello_info \<in> set (fst (infolist_run 3 Unstarted hello_archive))
   \<and> offset_data hello_info = align4 (offset hello_info + 110 + int (length (name hello_info)) + 1)
   \<and> offset_after hello_info = align4 (offset_data hello_info + filesize hello_info)"
proof -
  have m: "hello_info \<in> set (fst (infolist_run 3 Unstarted hello_archive))"
    by (simp add: hello_run)
  from C4_offsets_aligned [OF m] m show ?thesis
    by (intro conjI) simp_all
qed

text \<open>
  C6. The scan never yields a descriptor named \<open>TRAILER!!!\<close>: no descriptor of a run of
  the generator, and no descriptor returned by a single \<open>next\<close>, has that name; and when
  the entry decoded at the scan position has that name, the generator returns without
  yielding it and yields nothing afterwards.
\<close>

theorem C6_trailer_never_yielded:
  "(\<forall>d \<in> set (fst (infolist_run k g a)). name d \<noteq> ''TRAILER!!!'')
   \<and> (infolist_next g a = (Inr (Some d), g', a') \<longrightarrow> name d \<noteq> ''TRAILER!!!'')
   \<and> (from_file (fp a) = (Inr info, f) \<and> name info = ''TRAILER!!!'' \<longrightarrow>
        infolist_body a = (Inr None, Exhausted, a\<lparr>fp := f\<rparr>)
        \<and> fst (infolist_run k Exhausted (a\<lparr>fp := f\<rparr>)) = [])"
  using infolist_run_names [of _ k g a] infolist_next_Some [of g a d g' a']
  by (auto simp: infolist_body_def infolist_run_Exhausted)

theorem C6_trailer_never_yielded_witness:
  "hello_info \<in> set (fst (infolist_run 3 Unstarted hello_archive))
   \<and> name hello_info \<noteq> ''TRAILER!!!''
   \<and> snd (infolist_run 3 Unstarted hello_archive)
       = (Some (Inr ()), hello_archive\<lparr>fp := \<lparr>content = hello_store, pos = 249\<rparr>\<rparr>)"
proof -
  have m: "hello_info \<in> set (fst (infolist_run 3 Unstarted hello_archive))"
    by (simp add: hello_run)
  with C6_trailer_never_yielded [of 3 Unstarted hello_archive] show ?thesis
    by (simp add: hello_run)
qed

section \<open>The single-writer latch\<close>

text \<open>
  C7. When the archive's single-writer latch is set, constructing another write stream
  raises the \<open>ValueError\<close> of the two-writers check, whatever the descriptor of the new
  member is, and nothing changes: the archive (its latch and its store) and every write
  stream that exists, with its accumulated length and its closed flag, are as before.
\<close>

theorem C7_second_writer_refused:
  "writer_active (archive w) \<Longrightarrow> new_writer w info = (Inl (ValueError TwoWriters), w)"
  by (simp add: new_writer_def WriteableMember_init_def)

theorem C7_second_writer_refused_witness:
  "writer_active (archive \<lparr>archive = \<lparr>fp = \<lparr>content = ''abc'', pos = 3\<rparr>, writeable = True,
                                      writer_active = True\<rparr>,
                          writers = [\<lparr>expected_length = 5, actual_length = 2, closed = False\<rparr>]\<rparr>)
   \<and> new_writer \<lparr>archive = \<lparr>fp = \<lparr>content = ''abc'', pos = 3\<rparr>, writeable = True,
                             writer_active = True\<rparr>,
                 writers = [\<lparr>expected_length = 5, actual_length = 2, closed = False\<rparr>]\<rparr>
        trailer_info
     = (Inl (ValueError TwoWriters),
        \<lparr>archive = \<lparr>fp = \<lparr>content = ''abc'', pos = 3\<rparr>, writeable = True,
                    writer_active = True\<rparr>,
         writers = [\<lparr>expected_length = 5, actual_length = 2, closed = False\<rparr>]\<rparr>)"
  using C7_second_writer_refused
          [of "\<lparr>archive = \<lparr>fp = \<lparr>content = ''abc'', pos = 3\<rparr>, writeable = True,
                            writer_active = True\<rparr>,
                writers = [\<lparr>expected_length = 5, actual_length = 2, closed = False\<rparr>]\<rparr>"
              trailer_info]
  by simp

text \<open>
  C8. The first \<open>close\<close> of a write stream (its closed flag is not set): when the
  accumulated length differs from the declared size it raises the \<open>ValueError\<close> of the
  length check and leaves the stream and the archive as they were (nothing is written,
  the stream is not marked closed, the latch keeps its value); when the two are equal it
  appends \<open>n < 4\<close> NUL bytes, \<open>n\<close> the number that brings the data length to a multiple
  of 4, marks the stream closed and clears the latch.
\<close>

theorem C8_close_checks_length:
  "\<not> closed m \<Longrightarrow>
   (actual_length m \<noteq> expected_length m \<longrightarrow>
      WriteableMember_close m a
        = (Inl (ValueError (LengthMismatch (actual_length m) (expected_length m))), m, a))
   \<and> (actual_length m = expected_length m \<longrightarrow>
      (\<exists>n < 4. (actual_length m + int n) mod 4 = 0 \<and>
         WriteableMember_close m a
           = (Inr (), m\<lparr>closed := True\<rparr>,
              a\<lparr>fp := \<lparr>content = content (fp a) @ replicate n NUL,
                         pos = length (content (fp a)) + n\<rparr>,
                writer_active := False\<rparr>)))"
proof (intro conjI impI)
  assume "\<not> closed m" "actual_length m \<noteq> expected_length m"
  then show "WriteableMember_close m a
        = (Inl (ValueError (LengthMismatch (actual_length m) (expected_length m))), m, a)"
    by (simp add: WriteableMember_close_def)
next
  assume h: "\<not> closed m" "actual_length m = expected_length m"
  define n where "n = nat ((4 - actual_length m mod 4) mod 4)"
  have n4: "n < 4" by (simp add: n_def)
  have "int n = (4 - actual_length m mod 4) mod 4" by (simp add: n_def)
  then have al: "(actual_length m + int n) mod 4 = 0" by (simp only: pad4_int)
  have cl: "WriteableMember_close m a
           = (Inr (), m\<lparr>closed := True\<rparr>,
              a\<lparr>fp := \<lparr>content = content (fp a) @ replicate n NUL,
                         pos = length (content (fp a)) + n\<rparr>,
                writer_active := False\<rparr>)"
    using h by (simp add: WriteableMember_close_def fp_append Let_def n_def)
  show "\<exists>n < 4. (actual_length m + int n) mod 4 = 0 \<and>
         WriteableMember_close m a
           = (Inr (), m\<lparr>closed := True\<rparr>,
              a\<lparr>fp := \<lparr>content = content (fp a) @ replicate n NUL,
                         pos = length (content (fp a)) + n\<rparr>,
                writer_active := False\<rparr>)"
    by (rule exI [of _ n]) (intro conjI n4 al cl)
qed

theorem C8_close_checks_length_witness:
  "\<not> closed \<lparr>expected_length = 5, actual_length = 3, closed = False\<rparr>
   \<and> actual_length \<lparr>expected_length = 5, actual_length = 3, closed = False\<rparr>
       \<noteq> expected_length \<lparr>expected_length = 5, actual_length = 3, closed = False\<rparr>
   \<and> WriteableMember_close \<lparr>expected_length = 5, actual_length = 3, closed = False\<rparr>
        \<lparr>fp = \<lparr>content = ''abc'', pos = 0\<rparr>, writeable = True, writer_active = True\<rparr>
      = (Inl (ValueError (LengthMismatch 3 5)),
         \<lparr>expected_length = 5, actual_length = 3, closed = False\<rparr>,
         \<lparr>fp = \<lparr>content = ''abc'', pos = 0\<rparr>, writeable = True, writer_active = True\<rparr>)
   \<and> \<not> closed \<lparr>expected_length = 5, actual_length = 5, closed = False\<rparr>
   \<and> actual_length \<lparr>expected_length = 5, actual_length = 5, closed = False\<rparr>
       = expected_length \<lparr>expected_length = 5, actual_length = 5, closed = False\<rparr>
   \<and> fst (WriteableMember_close \<lparr>expected_length = 5, actual_length = 5, closed = False\<rparr>
          \<lparr>fp = \<lparr>content = ''abcde'', pos = 0\<rparr>, writeable = True, writer_active = True\<rparr>)
       = Inr ()"
  using C8_close_checks_length
          [of "\<lparr>expected_length = 5, actual_length = 3, closed = False\<rparr>"
              "\<lparr>fp = \<lparr>content = ''abc'', pos = 0\<rparr>, writeable = True, writer_active = True\<rparr>"]
        C8_close_checks_length
          [of "\<lparr>expected_length = 5, actual_length = 5, closed = False\<rparr>"
              "\<lparr>fp = \<lparr>content = ''abcde'', pos = 0\<rparr>, writeable = True, writer_active = True\<rparr>"]
  by auto

section \<open>Closing the archive\<close>

text \<open>
  C9. \<open>close\<close> on a writeable archive with no write stream open appends exactly the
  encoding of the trailer descriptor (name \<open>TRAILER!!!\<close>, size 0, inode 0, mode 0o755,
  link count 1, every other field 0) with no data bytes and no further padding: 124 bytes,
  the header and the name padded to a multiple of 4 like any entry, which decode again to
  the trailer descriptor. With a write stream still open it raises the \<open>ValueError\<close> of
  the open-writer check and changes nothing.
\<close>

theorem C9_close_appends_trailer:
  "writeable a \<Longrightarrow>
     (\<not> writer_active a \<longrightarrow>
        CPIOFile_close a
          = (Inr (), a\<lparr>fp := \<lparr>content = content (fp a) @ encode trailer_info,
                                pos = length (content (fp a)) + 124\<rparr>\<rparr>)
        \<and> from_file \<lparr>content = content (fp a) @ encode trailer_info,
                       pos = length (content (fp a))\<rparr>
          = (Inr (trailer_info\<lparr>offset := int (length (content (fp a)))\<rparr>),
             \<lparr>content = content (fp a) @ encode trailer_info,
              pos = length (content (fp a)) + 121\<rparr>))
     \<and> (writer_active a \<longrightarrow> CPIOFile_close a = (Inl (ValueError WriterStillOpen), a))
     \<and> trailer_info
         = \<lparr>offset = 0, ino = 0, mode = 7 * 64 + 5 * 8 + 5, uid = 0, gid = 0, nlink = 1,
            mtime = 0, filesize = 0, devmajor = 0, devminor = 0, rdevmajor = 0, rdevminor = 0,
            name = ''TRAILER!!!''\<rparr>
     \<and> encode trailer_info
         = ''07070100000000000001ed0000000000000000000000010000000000000000000000000000000000000000000000000000000b00000000TRAILER!!!''
           @ replicate 4 NUL"
proof -
  assume w: "writeable a"
  have ff: "from_file \<lparr>content = content (fp a) @ encode trailer_info,
                       pos = length (content (fp a))\<rparr>
          = (Inr (trailer_info\<lparr>offset := int (length (content (fp a)))\<rparr>),
             \<lparr>content = content (fp a) @ encode trailer_info,
              pos = length (content (fp a)) + 121\<rparr>)"
    using from_file_encode [OF in_data_model_trailer, of "content (fp a)" "[]"]
    by (simp add: trailer_info_def)
  have st: "writer_active a \<longrightarrow> CPIOFile_close a = (Inl (ValueError WriterStillOpen), a)"
    using w by (simp add: CPIOFile_close_def)
  have ti: "trailer_info
         = \<lparr>offset = 0, ino = 0, mode = 7 * 64 + 5 * 8 + 5, uid = 0, gid = 0, nlink = 1,
            mtime = 0, filesize = 0, devmajor = 0, devminor = 0, rdevmajor = 0, rdevminor = 0,
            name = ''TRAILER!!!''\<rparr>"
    by (simp add: trailer_info_def)
  show ?thesis
    using close_writeable [OF w] ff st ti encode_trailer by blast
qed

theorem C9_close_appends_trailer_witness:
  "writeable \<lparr>fp = \<lparr>content = ''abcd'', pos = 0\<rparr>, writeable = True, writer_active = False\<rparr>
   \<and> \<not> writer_active \<lparr>fp = \<lparr>content = ''abcd'', pos = 0\<rparr>, writeable = True, writer_active = False\<rparr>
   \<and> CPIOFile_close \<lparr>fp = \<lparr>content = ''abcd'', pos = 0\<rparr>, writeable = True, writer_active = False\<rparr>
       = (Inr (), \<lparr>fp = \<lparr>content = ''abcd'' @ encode trailer_info, pos = 128\<rparr>,
                   writeable = True, writer_active = False\<rparr>)
   \<and> writeable \<lparr>fp = \<lparr>content = ''abcd'', pos = 0\<rparr>, writeable = True, writer_active = True\<rparr>
   \<and> writer_active \<lparr>fp = \<lparr>content = ''abcd'', pos = 0\<rparr>, writeable = True, writer_active = True\<rparr>
   \<and> CPIOFile_close \<lparr>fp = \<lparr>content = ''abcd'', pos = 0\<rparr>, writeable = True, writer_active = True\<rparr>
       = (Inl (ValueError WriterStillOpen),
          \<lparr>fp = \<lparr>content = ''abcd'', pos = 0\<rparr>, writeable = True, writer_active = True\<rparr>)"
  using C9_close_appends_trailer
          [of "\<lparr>fp = \<lparr>content = ''abcd'', pos = 0\<rparr>, writeable = True, writer_active = False\<rparr>"]
        C9_close_appends_trailer
          [of "\<lparr>fp = \<lparr>content = ''abcd'', pos = 0\<rparr>, writeable = True, writer_active = True\<rparr>"]
  by simp

section \<open>Opening members\<close>

text \<open>
  C10. \<open>open(info, "r")\<close> never looks at the archive's access mode: on every archive,
  read-only or writeable, it returns a read stream and leaves the archive as it was. The
  read-only error is raised exactly for \<open>open(info, "w")\<close> on an archive that is not
  writeable, and the unknown-mode error exactly for a mode other than \<open>"r"\<close> and \<open>"w"\<close>.
\<close>

theorem C10_open_mode_checks:
  "CPIOFile_open a info ''r'' = (Inr (Reader (ReadableMember_init info)), a)
   \<and> (fst (CPIOFile_open a info md) = Inl (ValueError ReadOnly) \<longleftrightarrow> md = ''w'' \<and> \<not> writeable a)
   \<and> (fst (CPIOFile_open a info md) = Inl (ValueError UnknownMode) \<longleftrightarrow> md \<noteq> ''r'' \<and> md \<noteq> ''w'')"
  by (auto simp: CPIOFile_open_def WriteableMember_init_def split: prod.splits sum.splits)

theorem C10_open_mode_checks_witness:
  "CPIOFile_open \<lparr>fp = \<lparr>content = [], pos = 0\<rparr>, writeable = True, writer_active = False\<rparr>
       trailer_info ''r''
     = (Inr (Reader (ReadableMember_init trailer_info)),
        \<lparr>fp = \<lparr>content = [], pos = 0\<rparr>, writeable = True, writer_active = False\<rparr>)
   \<and> fst (CPIOFile_open \<lparr>fp = \<lparr>content = [], pos = 0\<rparr>, writeable = False, writer_active = False\<rparr>
            trailer_info ''w'') = Inl (ValueError ReadOnly)
   \<and> fst (CPIOFile_open \<lparr>fp = \<lparr>content = [], pos = 0\<rparr>, writeable = False, writer_active = False\<rparr>
            trailer_info ''a'') = Inl (ValueError UnknownMode)"
  using C10_open_mode_checks
          [of "\<lparr>fp = \<lparr>content = [], pos = 0\<rparr>, writeable = True, writer_active = False\<rparr>"
              trailer_info "''r''"]
        C10_open_mode_checks
          [of "\<lparr>fp = \<lparr>content = [], pos = 0\<rparr>, writeable = False, writer_active = False\<rparr>"
              trailer_info "''w''"]
        C10_open_mode_checks
          [of "\<lparr>fp = \<lparr>content = [], pos = 0\<rparr>, writeable = False, writer_active = False\<rparr>"
              trailer_info "''a''"]
  by simp

end
